theory Spec2Isabelle
  imports Main "HOL-Library.Sublist"
begin

section \<open>Python values used by the orchestration code\<close>

subsection \<open>Exceptions, log records and observable actions\<close>

text \<open>
  \<open>CancelledError\<close> derives from \<open>BaseException\<close> only, so an
  \<open>except Exception\<close> clause does not catch it. \<open>TimeoutError\<close> is an
  ordinary \<open>Exception\<close>; every other exception class is represented by
  \<open>PyException\<close> with its message.
\<close>

datatype exn = CancelledError | TimeoutError | PyException string

definition is_Exception :: "exn \<Rightarrow> bool" where
  "is_Exception e = (e \<noteq> CancelledError)"

datatype level = DEBUG | INFO | WARNING | ERROR

text \<open>
  Everything the code does to the outside world apart from the filesystem is
  recorded, in order, as a list of actions. Log and notification texts are
  recorded by their format string as written in the source; interpolated
  values are not rendered.
\<close>

datatype action =
    Log level string
  | Notify string
  | ClearOutput
  | ProgressVisible bool
  | ProgressValue nat nat
  | Spawn "string list" nat
  | Register nat
  | Terminate nat
  | Kill nat
  | Wait nat
  | Exited nat int

subsection \<open>Strings\<close>

text \<open>
  A string is represented by its UTF-8 encoding, so that a character of the
  model is a byte and a character beyond ASCII takes two to four of them.
  The characters for which \<open>str.isspace\<close> holds are the ASCII controls
  9 to 13 and 28 to 31, the space, U+0085, U+00A0, U+1680, U+2000 to U+200A,
  U+2028, U+2029, U+202F, U+205F and U+3000; \<open>whitespace\<close> lists their
  encodings.
\<close>

definition whitespace :: "string list" where
  "whitespace =
     [[CHR 0x09], [CHR 0x0A], [CHR 0x0B], [CHR 0x0C], [CHR 0x0D],
      [CHR 0x1C], [CHR 0x1D], [CHR 0x1E], [CHR 0x1F], [CHR 0x20],
      [CHR 0xC2, CHR 0x85], [CHR 0xC2, CHR 0xA0],
      [CHR 0xE1, CHR 0x9A, CHR 0x80],
      [CHR 0xE2, CHR 0x80, CHR 0x80], [CHR 0xE2, CHR 0x80, CHR 0x81],
      [CHR 0xE2, CHR 0x80, CHR 0x82], [CHR 0xE2, CHR 0x80, CHR 0x83],
      [CHR 0xE2, CHR 0x80, CHR 0x84], [CHR 0xE2, CHR 0x80, CHR 0x85],
      [CHR 0xE2, CHR 0x80, CHR 0x86], [CHR 0xE2, CHR 0x80, CHR 0x87],
      [CHR 0xE2, CHR 0x80, CHR 0x88], [CHR 0xE2, CHR 0x80, CHR 0x89],
      [CHR 0xE2, CHR 0x80, CHR 0x8A],
      [CHR 0xE2, CHR 0x80, CHR 0xA8], [CHR 0xE2, CHR 0x80, CHR 0xA9],
      [CHR 0xE2, CHR 0x80, CHR 0xAF],
      [CHR 0xE2, CHR 0x81, CHR 0x9F],
      [CHR 0xE3, CHR 0x80, CHR 0x80]]"

text \<open>
  \<open>strip_prefixes ws s\<close> removes from the front of \<open>s\<close> every leading
  occurrence of a word of \<open>ws\<close>. \<open>str.strip\<close> removes the whitespace
  characters from both ends.
\<close>

fun strip_prefixes :: "string list \<Rightarrow> string \<Rightarrow> string" where
  "strip_prefixes ws [] = []"
| "strip_prefixes ws (c # s) =
     (case find (\<lambda>w. w \<noteq> [] \<and> prefix w (c # s)) ws of
        None \<Rightarrow> c # s
      | Some w \<Rightarrow> strip_prefixes ws (drop (length w - 1) s))"

definition py_strip :: "string \<Rightarrow> string" where
  "py_strip s = rev (strip_prefixes (map rev whitespace) (rev (strip_prefixes whitespace s)))"

text \<open>
  \<open>str.lower\<close> maps \<open>A..Z\<close> to \<open>a..z\<close> and the Kelvin sign U+212A,
  the one character beyond ASCII whose lower case is ASCII text, to \<open>k\<close>.
  Every other character beyond ASCII is kept as it is: its lower case is
  not ASCII text either, so that the result is the one of \<open>str.lower\<close>
  whenever either of the two is ASCII text.
\<close>

definition py_lower_char :: "char \<Rightarrow> char" where
  "py_lower_char c = (let n = (of_char c :: nat) in if 65 \<le> n \<and> n \<le> 90 then char_of (n + 32) else c)"

fun py_lower :: "string \<Rightarrow> string" where
  "py_lower (a # b # c # s) =
     (if [a, b, c] = [CHR 0xE2, CHR 0x84, CHR 0xAA] then CHR ''k'' # py_lower s
      else py_lower_char a # py_lower (b # c # s))"
| "py_lower (a # s) = py_lower_char a # py_lower s"
| "py_lower [] = []"

definition digit_char :: "nat \<Rightarrow> char" where
  "digit_char d = char_of (48 + d)"

fun str_nat :: "nat \<Rightarrow> string" where
  "str_nat n = (if n < 10 then [digit_char n] else str_nat (n div 10) @ [digit_char (n mod 10)])"

declare str_nat.simps [simp del]

definition str_bool :: "bool \<Rightarrow> string" where
  "str_bool b = (if b then ''True'' else ''False'')"

fun split_sep :: "char \<Rightarrow> string \<Rightarrow> string list" where
  "split_sep c [] = [[]]"
| "split_sep c (x # xs) =
     (if x = c then [] # split_sep c xs
      else (case split_sep c xs of [] \<Rightarrow> [[x]] | y # ys \<Rightarrow> (x # y) # ys))"

fun join_sep :: "string \<Rightarrow> string list \<Rightarrow> string" where
  "join_sep sep [] = []"
| "join_sep sep [x] = x"
| "join_sep sep (x # y # ys) = x @ sep @ join_sep sep (y # ys)"

subsection \<open>Paths\<close>

text \<open>
  A \<open>pathlib\<close> path on a POSIX system: whether it is anchored at the
  root, and its components. Parsing drops empty and \<open>.\<close> components.
  The stem follows \<open>PurePath.stem\<close>: the final component up to its last
  dot, unless that dot is the first or the last character.
\<close>

datatype pure_path = PurePath (is_abs: bool) (parts: "string list")

definition Path :: "string \<Rightarrow> pure_path" where
  "Path s = PurePath (s \<noteq> [] \<and> hd s = CHR ''/'')
                     (filter (\<lambda>p. p \<noteq> [] \<and> p \<noteq> ''.'') (split_sep CHR ''/'' s))"

definition path_str :: "pure_path \<Rightarrow> string" where
  "path_str p =
     (if is_abs p then ''/'' @ join_sep ''/'' (parts p)
      else if parts p = [] then ''.'' else join_sep ''/'' (parts p))"

definition joinpath :: "pure_path \<Rightarrow> string \<Rightarrow> pure_path" where
  "joinpath p s =
     (let q = Path s in
      if is_abs q then q else PurePath (is_abs p) (parts p @ parts q))"

definition path_parent :: "pure_path \<Rightarrow> pure_path" where
  "path_parent p = PurePath (is_abs p) (butlast (parts p))"

definition path_name :: "pure_path \<Rightarrow> string" where
  "path_name p = (if parts p = [] then [] else last (parts p))"

fun rfind :: "char \<Rightarrow> string \<Rightarrow> nat option" where
  "rfind c [] = None"
| "rfind c (x # xs) =
     (case rfind c xs of Some i \<Rightarrow> Some (Suc i)
      | None \<Rightarrow> if x = c then Some 0 else None)"

definition path_stem :: "pure_path \<Rightarrow> string" where
  "path_stem p =
     (let nm = path_name p in
      case rfind CHR ''.'' nm of
        None \<Rightarrow> nm
      | Some i \<Rightarrow> if 0 < i \<and> i + 1 < length nm then take i nm else nm)"

subsection \<open>Filesystem\<close>

text \<open>
  The filesystem maps a path to a directory or to a regular file with its
  content. The empty path (the current directory, or the root) always exists.
\<close>

datatype node = Dir | File string

type_synonym filesystem = "pure_path \<Rightarrow> node option"

definition path_exists :: "filesystem \<Rightarrow> pure_path \<Rightarrow> bool" where
  "path_exists fs p = (parts p = [] \<or> fs p \<noteq> None)"


definition ancestors_and_self :: "pure_path \<Rightarrow> pure_path list" where
  "ancestors_and_self p = map (PurePath (is_abs p)) (tl (prefixes (parts p)))"


definition is_dir :: "filesystem \<Rightarrow> pure_path \<Rightarrow> bool" where
  "is_dir fs p = (parts p = [] \<or> fs p = Some Dir)"


text \<open>
  Writing a text file as \<open>DataFrame.to_csv\<close> does: the parent of the path
  must be a directory, which is checked first, and the path itself must not
  be one; then the file holds the text, whatever it held before.
\<close>

definition write_text :: "filesystem \<Rightarrow> pure_path \<Rightarrow> string \<Rightarrow> exn + filesystem" where
  "write_text fs p content =
     (if \<not> is_dir fs (path_parent p) then Inl (PyException ''OSError'')
      else if is_dir fs p then Inl (PyException ''IsADirectoryError'')
      else Inr (fs(p \<mapsto> File content)))"

section \<open>Data model\<close>

text \<open>
  A row of the filetable is the dictionary built by \<open>add_to_datafiles\<close>:
  every key is present, the metadata fields are free text and the declared
  type is one of the strings returned by \<open>check_type\<close>.
\<close>

record DataFileEntry =
  name :: string
  type :: string
  path :: string
  replicate :: string
  condition :: string
  fraction :: string
  reference :: bool

section \<open>Filetable validation\<close>

definition validate_filetable :: "DataFileEntry list \<Rightarrow> bool" where
  "validate_filetable filetable =
     (let types = set (map type filetable) in
      if card types = 1 \<and> ''Thermo Raw'' \<in> types then True
      else if card types = 1 \<and> (''Bruker D'' \<in> types \<or> ''Bruker D Zip'' \<in> types) then True
      else if card types = 2 \<and> ''Bruker D'' \<in> types \<and> ''Bruker D Zip'' \<in> types then True
      else False)"

section \<open>Archive extractor worker\<close>

text \<open>
  What \<open>zipfile.ZipFile(zip_path).extractall(extract_path)\<close> does for a
  given archive: the members it writes below the destination (relative
  components and content), and the exception it then raises, if any (a
  missing or malformed archive writes nothing and raises at once).
\<close>

record zip_env =
  members :: "(string list \<times> string) list"
  zip_error :: "string option"

datatype progress_event = Progress string | Done nat bool string string

definition try_put :: "progress_event list option \<Rightarrow> progress_event \<Rightarrow> progress_event list option" where
  "try_put progress_queue ev = map_option (\<lambda>q. q @ [ev]) progress_queue"

definition extract_member :: "pure_path \<Rightarrow> filesystem \<Rightarrow> string list \<times> string \<Rightarrow> filesystem" where
  "extract_member base fs m =
     (let target = PurePath (is_abs base) (parts base @ fst m) in
      (foldl (\<lambda>f q. f(q \<mapsto> Dir)) fs (ancestors_and_self (path_parent target)))
        (target \<mapsto> File (snd m)))"

definition extractall :: "filesystem \<Rightarrow> pure_path \<Rightarrow> (string list \<times> string) list \<Rightarrow> filesystem" where
  "extractall fs extract_path ms = foldl (extract_member extract_path) fs ms"

definition extract_zip_worker ::
  "nat \<Rightarrow> pure_path \<Rightarrow> pure_path \<Rightarrow> progress_event list option \<Rightarrow> zip_env \<Rightarrow> filesystem
     \<Rightarrow> filesystem \<times> progress_event list option \<times> (nat \<times> bool \<times> string \<times> string)" where
  "extract_zip_worker idx zip_path extract_path progress_queue env fs =
     (let q1 = try_put progress_queue (Progress (''Extracting '' @ path_str zip_path));
          fs1 = extractall fs extract_path (members env)
      in case zip_error env of
           Some e \<Rightarrow> (fs1, try_put q1 (Done idx False [] e), (idx, False, [], e))
         | None \<Rightarrow>
             (let real_path = joinpath extract_path ''analysis.tdf'' in
              if \<not> path_exists fs1 real_path then
                (fs1,
                 try_put q1 (Done idx False []
                   (''Missing analysis.tdf after extraction for '' @ path_str zip_path)),
                 (idx, False, [], ''Missing analysis.tdf after extraction for '' @ path_str zip_path))
              else
                (fs1,
                 try_put q1 (Done idx True (path_str (path_parent real_path)) []),
                 (idx, True, path_str (path_parent real_path), []))))"

text \<open>
  The row that \<open>add_to_datafiles\<close> appends for a selected path whose
  type \<open>check_type\<close> has determined.
\<close>

definition new_entry :: "string \<Rightarrow> string \<Rightarrow> DataFileEntry" where
  "new_entry p t =
     \<lparr>name = (if path_name (Path p) = [] then path_str (Path p) else path_name (Path p)),
      type = t,
      path = path_str (Path p),
      replicate = [],
      condition = [],
      fraction = [],
      reference = False\<rparr>"

section \<open>Condition table\<close>

text \<open>
  The replicate column holds the text entered by the user until replicate
  numbers are assigned, and integers afterwards.
\<close>

datatype cell = Text string | Number nat

definition astype_str :: "cell \<Rightarrow> string" where
  "astype_str c = (case c of Text s \<Rightarrow> s | Number n \<Rightarrow> str_nat n)"

definition replicate_blank :: "string \<Rightarrow> bool" where
  "replicate_blank s = (py_lower (py_strip s) \<in> set [[], ''none'', ''nan''])"

text \<open>
  \<open>df.groupby(keys)[col].transform(f)\<close>: \<open>f\<close> is applied to the values of
  each group, taken in row order, and its results are put back at the rows
  of the group.
\<close>

definition group_values :: "'k list \<Rightarrow> 'v list \<Rightarrow> 'k \<Rightarrow> 'v list" where
  "group_values keys col k = map snd (filter (\<lambda>kv. fst kv = k) (zip keys col))"

definition group_position :: "'k list \<Rightarrow> nat \<Rightarrow> nat" where
  "group_position keys i = length (filter (\<lambda>k. k = keys ! i) (take i keys))"

definition groupby_transform :: "'k list \<Rightarrow> ('v list \<Rightarrow> 'w list) \<Rightarrow> 'v list \<Rightarrow> 'w list" where
  "groupby_transform keys f col =
     map (\<lambda>i. f (group_values keys col (keys ! i)) ! group_position keys i) [0..<length col]"

definition na_if_blank :: "string \<Rightarrow> string" where
  "na_if_blank s = (if s = [] then ''NA'' else s)"

record condition_row =
  seq_no :: nat
  Reference :: bool
  Run_Label :: string
  Condition :: string
  Fraction :: string
  Replicate :: cell
  Label :: string
  File_Name :: string

definition condition_table :: "DataFileEntry list \<Rightarrow> condition_row list \<times> bool" where
  "condition_table filetable =
     (let n = length filetable;
          numbers = [1..<n + 1];
          file_names = map (\<lambda>e. path_stem (Path (name e))) filetable;
          fractions = map (\<lambda>e. na_if_blank (fraction e)) filetable;
          conditions = map (\<lambda>e. na_if_blank (condition e)) filetable;
          replicates0 = map (\<lambda>e. Text (replicate e)) filetable;
          replicates =
            (if list_all (\<lambda>c. replicate_blank (astype_str c)) replicates0
             then map Number
                    (groupby_transform (zip fractions conditions)
                       (\<lambda>f. [1..<length f + 1]) replicates0)
             else replicates0);
          warn = list_ex (\<lambda>c. replicate_blank (astype_str c)) replicates
      in (map (\<lambda>i. \<lparr>seq_no = numbers ! i,
                     Reference = reference (filetable ! i),
                     Run_Label = name (filetable ! i),
                     Condition = conditions ! i,
                     Fraction = fractions ! i,
                     Replicate = replicates ! i,
                     Label = conditions ! i,
                     File_Name = file_names ! i\<rparr>) [0..<n],
          warn))"

definition csv_header :: "string list" where
  "csv_header = [''#'', ''Reference'', ''Run Label'', ''Condition'', ''Fraction'',
                 ''Replicate'', ''Label'', ''File Name'']"

definition row_cells :: "condition_row \<Rightarrow> string list" where
  "row_cells r = [str_nat (seq_no r), str_bool (Reference r), Run_Label r, Condition r,
                  Fraction r, astype_str (Replicate r), Label r, File_Name r]"

text \<open>
  \<open>to_csv(sep='\t', index=False)\<close> hands the header and the rows to
  \<open>csv.writer\<close> with the default minimal quoting and the line
  terminator \<open>'\n'\<close>: a field holding the separator, a double quote or
  a line feed is put in double quotes, with its quotes doubled, and every
  line ends in a line feed. A field holding a carriage return is quoted by
  the versions of the \<open>csv\<close> module that quote every line break and
  written bare by those that quote the characters of the line terminator
  only; \<open>quote_cr\<close> tells which of the two is at work.
\<close>

definition csv_field :: "bool \<Rightarrow> string \<Rightarrow> string" where
  "csv_field quote_cr s =
     (if list_ex (\<lambda>c. c \<in> set ([CHR 0x09, CHR 0x22, CHR 0x0A] @ (if quote_cr then [CHR 0x0D] else []))) s
      then [CHR 0x22] @ concat (map (\<lambda>c. if c = CHR 0x22 then [c, c] else [c]) s) @ [CHR 0x22]
      else s)"

definition csv_line :: "bool \<Rightarrow> string list \<Rightarrow> string" where
  "csv_line quote_cr cells = join_sep [CHR 0x09] (map (csv_field quote_cr) cells) @ [CHR 0x0A]"

definition to_csv :: "bool \<Rightarrow> condition_row list \<Rightarrow> string" where
  "to_csv quote_cr rows = concat (map (csv_line quote_cr) (csv_header # map row_cells rows))"

text \<open>
  A frame built from an empty list has no columns, so the first column
  access raises \<open>KeyError\<close>.
\<close>

definition write_conditon_file ::
  "bool \<Rightarrow> DataFileEntry list \<Rightarrow> string \<Rightarrow> filesystem \<Rightarrow> action list \<times> (exn + filesystem)" where
  "write_conditon_file quote_cr filetable output_path fs =
     (if filetable = [] then ([], Inl (PyException ''KeyError''))
      else
        (let tbl = condition_table filetable;
             lg = (if snd tbl
                   then [Log WARNING ''Only some replicates were assigned, check your input'']
                   else [])
         in (lg, write_text fs (Path output_path) (to_csv quote_cr (fst tbl)))))"

text \<open>
  What a tab-separated file is, by the reader of such files: fields end at a
  tab and records at a line feed, unless the field began with a double
  quote; such a field runs to the next double quote that is not doubled, and
  a doubled double quote in it stands for one. The reader is in one of four
  states, has read part of a field and part of a record, and returns the
  records of the text.
\<close>

datatype reader_state = StartField | InField | InQuotedField | QuoteInQuotedField

fun read_tsv :: "reader_state \<Rightarrow> string \<Rightarrow> string list \<Rightarrow> string \<Rightarrow> string list list" where
  "read_tsv st fld row [] =
     (if st = StartField \<and> row = [] then [] else [row @ [fld]])"
| "read_tsv st fld row (c # s) =
     (if st = InQuotedField then
        (if c = CHR 0x22 then read_tsv QuoteInQuotedField fld row s
         else read_tsv InQuotedField (fld @ [c]) row s)
      else if c = CHR 0x09 then read_tsv StartField [] (row @ [fld]) s
      else if c = CHR 0x0A then (row @ [fld]) # read_tsv StartField [] [] s
      else if c = CHR 0x22 \<and> st = StartField then read_tsv InQuotedField fld row s
      else if c = CHR 0x22 \<and> st = QuoteInQuotedField then read_tsv InQuotedField (fld @ [c]) row s
      else read_tsv InField (fld @ [c]) row s)"

text \<open>The key of the group a row of the filetable falls into.\<close>

definition group_key :: "DataFileEntry \<Rightarrow> string \<times> string" where
  "group_key e = (na_if_blank (fraction e), na_if_blank (condition e))"

definition is_digit :: "char \<Rightarrow> bool" where
  "is_digit c = (48 \<le> (of_char c :: nat) \<and> (of_char c :: nat) \<le> 57)"

section \<open>Argument assembly\<close>

text \<open>
  The options dictionary. A key that is absent is read with \<open>args.get\<close>
  and counts as blank, so it is represented by the empty string.
\<close>

record args =
  temp_directory :: string
  mod_repository :: string
  enzyme_database :: string
  protocol :: string
  experiment_name :: string
  condition_file :: string
  properties_file :: string
  report_file :: string
  fasta_file :: string
  go_file :: string
  output_directory :: string
  verbose :: bool
  parquet :: bool
  error_term :: bool
  segmented :: bool
  datafiles :: "DataFileEntry list"

definition parse_args :: "args \<Rightarrow> string list list" where
  "parse_args a =
     (if temp_directory a \<noteq> [] then [[''-setTemp'', temp_directory a]] else []) @
     (if mod_repository a \<noteq> [] then [[''--importModRepository'', mod_repository a]] else []) @
     (if enzyme_database a \<noteq> [] then [[''--importEnzymeDB'', enzyme_database a]] else []) @
     (if protocol a \<noteq> [] then [[protocol a]] else []) @
     (if experiment_name a \<noteq> [] then [[''-n'', experiment_name a]] else []) @
     (if condition_file a \<noteq> [] then [[''-con'', condition_file a]] else []) @
     (if properties_file a \<noteq> [] then [[''-s'', properties_file a]] else []) @
     (if report_file a \<noteq> [] then [[''-rs'', report_file a]] else []) @
     (if fasta_file a \<noteq> [] then [[''-fasta'', fasta_file a]] else []) @
     (if go_file a \<noteq> [] then [[''-go'', go_file a]] else []) @
     (if output_directory a \<noteq> [] then [[''-o'', output_directory a]] else []) @
     (if verbose a then [[''--verbose'']] else []) @
     (if parquet a then [[''--writeParquet'']] else []) @
     (if error_term a then [[''--terminateAfterError'']] else []) @
     (if segmented a then [[''-segmented'']] else [])"

definition get_args :: "args \<Rightarrow> string list" where
  "get_args a = foldl (\<lambda>i j. i @ j) [] (parse_args a)"

definition get_full_args :: "args \<Rightarrow> string list" where
  "get_full_args a =
     foldl (\<lambda>args_list file. args_list @ [''-r'', path file])
       (foldl (\<lambda>i j. i @ j) [] (parse_args a)) (datafiles a)"

text \<open>
  The specification's reading of argument assembly: a fixed table assigns to
  every option its flag, in a fixed order; an option that is given (a
  non-empty string, a true boolean) contributes its flag and value, the
  sub-command its value, a boolean its flag alone; an option that is not
  given contributes nothing.
\<close>

datatype option_kind =
    StrOpt string "args \<Rightarrow> string"
  | Positional "args \<Rightarrow> string"
  | BoolOpt string "args \<Rightarrow> bool"

definition option_table :: "option_kind list" where
  "option_table =
     [StrOpt ''-setTemp'' temp_directory,
      StrOpt ''--importModRepository'' mod_repository,
      StrOpt ''--importEnzymeDB'' enzyme_database,
      Positional protocol,
      StrOpt ''-n'' experiment_name,
      StrOpt ''-con'' condition_file,
      StrOpt ''-s'' properties_file,
      StrOpt ''-rs'' report_file,
      StrOpt ''-fasta'' fasta_file,
      StrOpt ''-go'' go_file,
      StrOpt ''-o'' output_directory,
      BoolOpt ''--verbose'' verbose,
      BoolOpt ''--writeParquet'' parquet,
      BoolOpt ''--terminateAfterError'' error_term,
      BoolOpt ''-segmented'' segmented]"

fun option_given :: "option_kind \<Rightarrow> args \<Rightarrow> bool" where
  "option_given (StrOpt flag get) a = (get a \<noteq> [])"
| "option_given (Positional get) a = (get a \<noteq> [])"
| "option_given (BoolOpt flag get) a = get a"

fun flag_value_pair :: "option_kind \<Rightarrow> args \<Rightarrow> string list" where
  "flag_value_pair (StrOpt flag get) a = [flag, get a]"
| "flag_value_pair (Positional get) a = [get a]"
| "flag_value_pair (BoolOpt flag get) a = [flag]"

definition spec_args :: "args \<Rightarrow> string list" where
  "spec_args a =
     concat (map (\<lambda>opt. flag_value_pair opt a) (filter (\<lambda>opt. option_given opt a) option_table))"

section \<open>Command runner\<close>

text \<open>
  What the operating system and the event loop do during one call of
  \<open>run_cmd\<close>: whether \<open>create_subprocess_exec\<close> raises, the lines read
  from the child's output, how the streaming ends (end of file, or an
  exception raised at that await: the timeout of \<open>wait_for\<close>, a
  cancellation of the calling task, a read error such as a line longer than
  the stream's limit), and what the awaits of \<open>process.wait()\<close> yield.
  \<open>wait_result\<close> is how the child ends when it is left to run: with an
  exit code, which \<open>process.wait()\<close> returns, unless the await is
  interrupted by a cancellation. \<open>cleanup_wait\<close> is the same for the
  await that follows a kill.
\<close>

datatype wait_outcome = ExitCode int | WaitCancelled

record run_env =
  spawn_result :: "exn option"
  pid :: nat
  stream_lines :: "string list"
  stream_result :: "exn option"
  wait_result :: wait_outcome
  kill_raises :: bool
  cleanup_wait :: wait_outcome

definition run_cmd :: "string list \<Rightarrow> nat option \<Rightarrow> run_env \<Rightarrow> action list \<times> (exn + bool)" where
  "run_cmd argv timeout env =
     (let start = [Log DEBUG ''run_cmd {args} (timeout={timeout})''];
          cannot_execute =
            (\<lambda>tr. (tr @ [Log ERROR ''Cannot execute command {args}: {e}''], Inr False))
      in case spawn_result env of
           Some e \<Rightarrow> if is_Exception e then cannot_execute start else (start, Inl e)
         | None \<Rightarrow>
             (let p = pid env;
                  tr1 = start @ [Spawn argv p, Register p, Log DEBUG ''Added PID: {process.pid}'']
                          @ map (Log INFO) (stream_lines env);
                  on_timeout =
                    (\<lambda>tr. let tr' = tr @ [Log ERROR ''Command timed out after {timeout} seconds: {args}'',
                                          Kill p, Wait p]
                          in case cleanup_wait env of
                               ExitCode rc \<Rightarrow> (tr' @ [Exited p rc], Inr False)
                             | WaitCancelled \<Rightarrow> (tr', Inl CancelledError));
                  on_cancel =
                    (\<lambda>tr. let tr' = tr @ [Log DEBUG ''Killing {process.pid}'', Kill p]
                                      @ (if kill_raises env
                                         then [Log DEBUG ''Killing failed for {process.pid}: {e}'']
                                         else [])
                                      @ [Wait p]
                          in case cleanup_wait env of
                               ExitCode rc \<Rightarrow> (tr' @ [Exited p rc], Inl CancelledError)
                             | WaitCancelled \<Rightarrow> (tr', Inl CancelledError))
              in case stream_result env of
                   Some TimeoutError \<Rightarrow> on_timeout tr1
                 | Some CancelledError \<Rightarrow> on_cancel tr1
                 | Some (PyException m) \<Rightarrow> cannot_execute tr1
                 | None \<Rightarrow>
                     (case wait_result env of
                        ExitCode rc \<Rightarrow> (tr1 @ [Wait p, Exited p rc], Inr (rc = 0))
                      | WaitCancelled \<Rightarrow> on_cancel (tr1 @ [Wait p]))))"

section \<open>Process registry\<close>

definition registered :: "action list \<Rightarrow> nat list" where
  "registered tr = concat (map (\<lambda>a. case a of Register p \<Rightarrow> [p] | _ \<Rightarrow> []) tr)"

definition has_exited :: "action list \<Rightarrow> nat \<Rightarrow> bool" where
  "has_exited tr p = list_ex (\<lambda>a. case a of Exited q rc \<Rightarrow> q = p | _ \<Rightarrow> False) tr"

text \<open>
  \<open>_cleanup_processes\<close>: processes without a return code are terminated,
  those still without one after the grace period are killed, and all are
  awaited. \<open>reaped\<close> tells which processes have exited by the end of the
  grace period.
\<close>

definition cleanup_processes :: "(nat \<Rightarrow> bool) \<Rightarrow> action list \<Rightarrow> action list" where
  "cleanup_processes reaped tr =
     (let processes = registered tr;
          live = filter (\<lambda>p. \<not> has_exited tr p) processes
      in if processes = [] then []
         else [Log WARNING ''Cleaning up {len(processes)} subprocess(es)'']
              @ map Terminate live
              @ map Kill (filter (\<lambda>p. \<not> reaped p) live)
              @ map Wait processes)"

section \<open>Extraction coordinator\<close>

text \<open>
  The worker pool is represented by one schedule: the tasks run one after
  the other in submission order and put their messages on the queue. The
  reader thread handles the messages in queue order, and stops when it has
  counted every task as done or sees the exit flag, which the coordinator
  sets as soon as it leaves the pool: \<open>handled = Some n\<close> says that the
  reader gets to handle \<open>n\<close> messages only, \<open>None\<close> that it handles
  them all. \<open>cancel_after = Some k\<close> says that the calling task is
  cancelled when \<open>k\<close> tasks have finished; \<open>pool_error\<close> that creating
  the pool or submitting to it raises.
\<close>

record prepare_env =
  archive_at :: "string \<Rightarrow> zip_env"
  pool_error :: bool
  cancel_after :: "nat option"
  handled :: "nat option"

record prep_state =
  p_fs :: filesystem
  p_table :: "DataFileEntry list"
  p_trace :: "action list"
  p_errors :: "(string \<times> string) list"
  p_done :: nat


definition handle_event :: "nat \<Rightarrow> prep_state \<Rightarrow> progress_event \<Rightarrow> prep_state" where
  "handle_event n_total s ev =
     (case ev of
        Progress msg \<Rightarrow> s\<lparr>p_trace := p_trace s @ [Log INFO msg]\<rparr>
      | Done idx success real_path err \<Rightarrow>
          (let file = p_table s ! idx in
           if success then
             s\<lparr>p_table := (p_table s)[idx := file\<lparr>path := real_path,
                                                    name := path_stem (Path (name file))\<rparr>],
               p_trace := p_trace s @ [Log INFO ''Extracted {file[name]} -> {real_path}'',
                                       ProgressValue (Suc (p_done s)) n_total],
               p_done := Suc (p_done s)\<rparr>
           else
             s\<lparr>p_trace := p_trace s @ [Log ERROR ''Failed extracting {file[path]}: {err}'',
                                       ProgressValue (Suc (p_done s)) n_total],
               p_errors := p_errors s @ [(path file, err)],
               p_done := Suc (p_done s)\<rparr>))"

fun run_workers ::
  "prepare_env \<Rightarrow> (nat \<times> string \<times> pure_path) list \<Rightarrow> filesystem
     \<Rightarrow> filesystem \<times> progress_event list" where
  "run_workers env [] fs = (fs, [])"
| "run_workers env (task # tasks) fs =
     (case task of
        (idx, zip_path, extract_path) \<Rightarrow>
          (case extract_zip_worker idx (Path zip_path) extract_path (Some [])
                  (archive_at env zip_path) fs of
             (fs1, q, r) \<Rightarrow>
               (case run_workers env tasks fs1 of
                  (fs2, msgs) \<Rightarrow> (fs2, (case q of Some evs \<Rightarrow> evs | None \<Rightarrow> []) @ msgs))))"

definition progress_reader ::
  "prepare_env \<Rightarrow> nat \<Rightarrow> prep_state \<Rightarrow> progress_event list \<Rightarrow> prep_state" where
  "progress_reader env n_total s msgs =
     foldl (handle_event n_total) s (case handled env of None \<Rightarrow> msgs | Some n \<Rightarrow> take n msgs)"

text \<open>
  The state of the extraction when the first \<open>k\<close> of the tasks have
  finished and the reader has handled its share of their messages. The
  tasks are submitted at once, from the table as the folder checks left it.
\<close>

definition extraction ::
  "pure_path \<Rightarrow> prepare_env \<Rightarrow> prep_state \<Rightarrow> nat list \<Rightarrow> nat \<Rightarrow> prep_state" where
  "extraction data_folder env s0 zip_tasks k =
     (let n_total = length zip_tasks;
          s1 = s0\<lparr>p_trace :=
                  [Log INFO ''Extracting {len(zip_tasks)} Bruker D Zip file(s)'',
                   Log DEBUG ''Using {max_workers} workers'',
                   ProgressVisible True, ProgressValue 0 n_total]\<rparr>;
          tasks = map (\<lambda>idx. (idx, path (p_table s0 ! idx),
                               joinpath data_folder
                                 (path_stem (Path (name (p_table s0 ! idx))))))
                    zip_tasks
      in case run_workers env (take k tasks) (p_fs s1) of
           (fs1, msgs) \<Rightarrow> progress_reader env n_total (s1\<lparr>p_fs := fs1\<rparr>) msgs)"




section \<open>DirectDIA workflow\<close>

record config =
  SPECTRONAUT :: "string list"
  SPECTRONAUT_KEY :: string

text \<open>
  The environment of one workflow invocation: the extraction environment,
  whether the calling task is cancelled while it awaits the worker thread
  that writes the condition file or the one that assembles the arguments,
  whether the \<open>csv\<close> module at hand quotes a field holding a carriage
  return, the environment of each of the three command invocations, and
  which processes have exited by the end of the cleanup's grace period.
\<close>

record pd_env =
  prepare_e :: prepare_env
  write_cancelled :: bool
  args_cancelled :: bool
  csv_quotes_cr :: bool
  activate_e :: run_env
  main_e :: run_env
  deactivate_e :: run_env
  reaped :: "nat \<Rightarrow> bool"

text \<open>
  The result of an invocation: the actions performed, the filesystem and the
  options dictionary as the invocation leaves them (the filetable is the
  dictionary's \<open>datafiles\<close>), and the returned value (\<open>None\<close> for a bare
  \<open>return\<close>) or the exception that leaves the coroutine.
\<close>

record pd_result =
  pd_trace :: "action list"
  pd_fs :: filesystem
  pd_args :: args
  pd_outcome :: "exn + bool option"







definition process_direct_run ::
  "config \<Rightarrow> pd_env \<Rightarrow> string list \<Rightarrow> action list \<times> (exn + bool option)" where
  "process_direct_run cfg env args_list =
     (let tr0 = [Log INFO ''Activating Spectronaut''] in
      case run_cmd (SPECTRONAUT cfg @ [''activate'', SPECTRONAUT_KEY cfg]) None (activate_e env) of
        (tr1, Inl e) \<Rightarrow> (tr0 @ tr1, Inl e)
      | (tr1, Inr result) \<Rightarrow>
          if \<not> result then
            (tr0 @ tr1 @ [Log ERROR ''Cannot activate Spectronaut, see detailed log''], Inr None)
          else
            (let tr2 = tr0 @ tr1 @ [Log INFO ''Spectronaut activated successfully'',
                                    Log INFO ''Launching Spectronaut'']
             in case run_cmd (SPECTRONAUT cfg @ args_list) None (main_e env) of
                  (tr3, Inl e) \<Rightarrow> (tr2 @ tr3, Inl e)
                | (tr3, Inr result2) \<Rightarrow>
                    (let success = (True \<and> result2);
                         tr4 = tr2 @ tr3 @
                               [if result2 then Log INFO ''Spectronaut exited successfully''
                                else Log ERROR ''Processing failed, see detailed log'',
                                Log INFO ''Deactivating Spectronaut'']
                     in case run_cmd (SPECTRONAUT cfg @ [''deactivate'']) None (deactivate_e env) of
                          (tr5, Inl e) \<Rightarrow> (tr4 @ tr5, Inl e)
                        | (tr5, Inr result3) \<Rightarrow>
                            (tr4 @ tr5 @
                             [if result3 then Log INFO ''Spectronaut deactivated''
                              else Log ERROR ''Cannot deactivate Spectronaut, see detailed log''],
                             Inr (Some success)))))"





text \<open>
  The decorator \<open>track_subprocess_cleanup\<close>: a cancellation that leaves the
  coroutine is followed by the cleanup of the registered processes and is
  raised again; every other outcome is passed on.
\<close>

definition track_subprocess_cleanup :: "(nat \<Rightarrow> bool) \<Rightarrow> pd_result \<Rightarrow> pd_result" where
  "track_subprocess_cleanup reaped_after r =
     (if pd_outcome r = Inl CancelledError
      then r\<lparr>pd_trace := pd_trace r @ cleanup_processes reaped_after (pd_trace r)\<rparr>
      else r)"




definition spawned :: "action list \<Rightarrow> string list list" where
  "spawned tr = concat (map (\<lambda>a. case a of Spawn argv p \<Rightarrow> [argv] | _ \<Rightarrow> []) tr)"

definition outcome_of :: "run_env \<Rightarrow> exn + bool" where
  "outcome_of env = snd (run_cmd [] None env)"





section \<open>Sample inputs\<close>

text \<open>
  Rows of the filetable after the user has entered a condition and a
  replicate, and batches of such rows: one with every replicate field left
  blank, one whose first replicate field holds a no-break space, one with
  the first replicate entered and the second left blank, one whose replicate
  fields all hold spellings of a missing value, one where only the first
  does, and one with a tab and double quotes in the condition of its first
  row and, in its second row, the reference mark, no condition and a line
  break in the fraction. \<open>out_tree\<close> is a filesystem that holds the output directory
  and its \<open>params\<close> folder.
\<close>

definition sample :: "string \<Rightarrow> string \<Rightarrow> string \<Rightarrow> DataFileEntry" where
  "sample n c r = (new_entry (''/work/'' @ n) ''Thermo Raw'')\<lparr>condition := c, replicate := r\<rparr>"

definition blank_batch :: "DataFileEntry list" where
  "blank_batch = [sample ''a.raw'' ''A'' [], sample ''b.raw'' ''B'' [], sample ''c.raw'' ''A'' []]"

definition spaced_batch :: "DataFileEntry list" where
  "spaced_batch = [sample ''a.raw'' ''A'' [CHR 0xC2, CHR 0xA0], sample ''b.raw'' ''A'' []]"

definition partial_batch :: "DataFileEntry list" where
  "partial_batch = [sample ''a.raw'' ''A'' ''1'', sample ''b.raw'' ''A'' []]"

definition unset_batch :: "DataFileEntry list" where
  "unset_batch = [sample ''a.raw'' ''A'' '' None '', sample ''b.raw'' ''A'' ''NaN'',
                  sample ''c.raw'' ''A'' [], sample ''d.raw'' ''A'' [CHR 0xE2, CHR 0x80, CHR 0x83]]"

definition half_set_batch :: "DataFileEntry list" where
  "half_set_batch = [sample ''a.raw'' ''A'' ''nan'', sample ''b.raw'' ''A'' ''2'']"

definition quoted_batch :: "DataFileEntry list" where
  "quoted_batch =
     [sample ''a.raw'' [CHR ''A'', CHR 0x09, CHR 0x22, CHR ''B'', CHR 0x22] [],
      (sample ''b.raw'' [] [])\<lparr>reference := True,
                                 fraction := [CHR ''f'', CHR 0x0D, CHR 0x0A, CHR ''1'']\<rparr>]"

definition out_tree :: filesystem where
  "out_tree = [Path ''out'' \<mapsto> Dir, Path ''out/params'' \<mapsto> Dir]"

text \<open>
  Three archives: one that unpacks to the marker file and a data file, one
  that unpacks the marker into a subfolder only, and one that cannot be read.
\<close>

definition good_archive :: zip_env where
  "good_archive =
     \<lparr>members = [([''analysis.tdf''], ''tdf''), ([''analysis.tdf_bin''], ''bin'')],
      zip_error = None\<rparr>"

definition unmarked_archive :: zip_env where
  "unmarked_archive = \<lparr>members = [([''c.d'', ''analysis.tdf''], ''tdf'')], zip_error = None\<rparr>"

definition broken_archive :: zip_env where
  "broken_archive = \<lparr>members = [], zip_error = Some ''File is not a zip file''\<rparr>"







definition example_args :: args where
  "example_args =
     \<lparr>temp_directory = [], mod_repository = [], enzyme_database = [],
      protocol = ''direct'', experiment_name = ''exp'', condition_file = [],
      properties_file = ''p.prop'', report_file = [], fasta_file = ''f.fasta'',
      go_file = [], output_directory = ''out'',
      verbose = True, parquet = False, error_term = False, segmented = True,
      datafiles = [new_entry ''/work/a.raw'' ''Thermo Raw'']\<rparr>"







section \<open>Properties of filetable validation\<close>

lemma card_ge_2:
  assumes "finite S" "a \<in> S" "b \<in> S" "a \<noteq> b"
  shows "2 \<le> card S"
proof -
  have "card {a, b} \<le> card S"
    using assms by (intro card_mono) auto
  moreover have "card {a, b} = 2"
    using assms by simp
  ultimately show ?thesis by simp
qed

lemma card_ge_3:
  assumes "finite S" "a \<in> S" "b \<in> S" "c \<in> S" "a \<noteq> b" "a \<noteq> c" "b \<noteq> c"
  shows "3 \<le> card S"
proof -
  have "card {a, b, c} \<le> card S"
    using assms by (intro card_mono) auto
  moreover have "card {a, b, c} = 3"
    using assms by simp
  ultimately show ?thesis by simp
qed

lemma validate_rejects_mixed:
  assumes t: "''Thermo Raw'' \<in> set (map type ft)"
    and b: "''Bruker D'' \<in> set (map type ft) \<or> ''Bruker D Zip'' \<in> set (map type ft)"
  shows "\<not> validate_filetable ft"
proof -
  let ?T = "set (map type ft)"
  have fin: "finite ?T" by simp
  have two: "2 \<le> card ?T"
    using b
  proof
    assume "''Bruker D'' \<in> ?T"
    with fin t show ?thesis
      by (intro card_ge_2 [of ?T "''Thermo Raw''" "''Bruker D''"]) simp_all
  next
    assume "''Bruker D Zip'' \<in> ?T"
    with fin t show ?thesis
      by (intro card_ge_2 [of ?T "''Thermo Raw''" "''Bruker D Zip''"]) simp_all
  qed
  have three: "''Bruker D'' \<in> ?T \<Longrightarrow> ''Bruker D Zip'' \<in> ?T \<Longrightarrow> 3 \<le> card ?T"
    using fin t
    by (intro card_ge_3 [of ?T "''Thermo Raw''" "''Bruker D''" "''Bruker D Zip''"]) simp_all
  show ?thesis
    unfolding validate_filetable_def Let_def
    using two three by auto
qed

lemma validate_accepts_thermo:
  assumes "ft \<noteq> []" "\<forall>e \<in> set ft. type e = ''Thermo Raw''"
  shows "validate_filetable ft"
proof -
  have "set (map type ft) = {''Thermo Raw''}"
    using assms by (cases ft) auto
  then show ?thesis
    by (simp add: validate_filetable_def)
qed

lemma validate_accepts_bruker:
  assumes ne: "ft \<noteq> []"
    and all: "\<forall>e \<in> set ft. type e = ''Bruker D'' \<or> type e = ''Bruker D Zip''"
  shows "validate_filetable ft"
proof -
  let ?T = "set (map type ft)"
  have sub: "?T \<subseteq> {''Bruker D'', ''Bruker D Zip''}"
    using all by auto
  have nonempty: "?T \<noteq> {}"
    using ne by simp
  have "?T \<in> Pow {''Bruker D'', ''Bruker D Zip''}"
    using sub by simp
  then have "?T \<in> {{}, {''Bruker D''}, {''Bruker D Zip''}, {''Bruker D'', ''Bruker D Zip''}}"
    unfolding Pow_insert Pow_empty by auto
  with nonempty consider "?T = {''Bruker D''}" | "?T = {''Bruker D Zip''}"
    | "?T = {''Bruker D'', ''Bruker D Zip''}"
    by auto
  then show ?thesis
  proof cases
    case 1
    then show ?thesis by (simp add: validate_filetable_def)
  next
    case 2
    then show ?thesis by (simp add: validate_filetable_def)
  next
    case 3
    then show ?thesis by (simp add: validate_filetable_def)
  qed
qed

text \<open>
  Claim C2. A filetable that holds a Thermo-native entry together with a
  Bruker-native entry (folder or zipped) is rejected by
  \<open>validate_filetable\<close>. A non-empty filetable whose entries are all
  \<open>Thermo Raw\<close>, all \<open>Bruker D\<close>, all \<open>Bruker D Zip\<close>, or any mix of
  \<open>Bruker D\<close> and \<open>Bruker D Zip\<close> only, is accepted.
\<close>

theorem validate_filetable_families:
  "((\<exists>e \<in> set ft. type e = ''Thermo Raw'') \<and>
    (\<exists>e \<in> set ft. type e = ''Bruker D'' \<or> type e = ''Bruker D Zip'')
      \<longrightarrow> \<not> validate_filetable ft)
   \<and> (ft \<noteq> [] \<and>
       ((\<forall>e \<in> set ft. type e = ''Thermo Raw'') \<or>
        (\<forall>e \<in> set ft. type e = ''Bruker D'') \<or>
        (\<forall>e \<in> set ft. type e = ''Bruker D Zip'') \<or>
        (\<forall>e \<in> set ft. type e = ''Bruker D'' \<or> type e = ''Bruker D Zip''))
      \<longrightarrow> validate_filetable ft)"
proof (intro conjI impI)
  assume "(\<exists>e \<in> set ft. type e = ''Thermo Raw'') \<and>
    (\<exists>e \<in> set ft. type e = ''Bruker D'' \<or> type e = ''Bruker D Zip'')"
  then have "''Thermo Raw'' \<in> set (map type ft)"
    and "''Bruker D'' \<in> set (map type ft) \<or> ''Bruker D Zip'' \<in> set (map type ft)"
    by force+
  then show "\<not> validate_filetable ft"
    by (rule validate_rejects_mixed)
next
  assume a: "ft \<noteq> [] \<and>
       ((\<forall>e \<in> set ft. type e = ''Thermo Raw'') \<or>
        (\<forall>e \<in> set ft. type e = ''Bruker D'') \<or>
        (\<forall>e \<in> set ft. type e = ''Bruker D Zip'') \<or>
        (\<forall>e \<in> set ft. type e = ''Bruker D'' \<or> type e = ''Bruker D Zip''))"
  then have ne: "ft \<noteq> []" by simp
  from a consider "\<forall>e \<in> set ft. type e = ''Thermo Raw''"
    | "\<forall>e \<in> set ft. type e = ''Bruker D'' \<or> type e = ''Bruker D Zip''"
    by blast
  then show "validate_filetable ft"
  proof cases
    case 1
    with ne show ?thesis by (rule validate_accepts_thermo)
  next
    case 2
    with ne show ?thesis by (rule validate_accepts_bruker)
  qed
qed

theorem validate_filetable_families_witness:
  "\<not> validate_filetable [new_entry ''/work/a.raw'' ''Thermo Raw'', new_entry ''/work/b.d'' ''Bruker D'',
                          new_entry ''/work/c.d.zip'' ''Bruker D Zip'']
   \<and> validate_filetable [new_entry ''/work/a.raw'' ''Thermo Raw'', new_entry ''/work/a2.raw'' ''Thermo Raw'']
   \<and> validate_filetable [new_entry ''/work/b.d'' ''Bruker D'', new_entry ''/work/c.d.zip'' ''Bruker D Zip'']"
proof -
  let ?mixed = "[new_entry ''/work/a.raw'' ''Thermo Raw'', new_entry ''/work/b.d'' ''Bruker D'',
                 new_entry ''/work/c.d.zip'' ''Bruker D Zip'']"
  let ?thermo = "[new_entry ''/work/a.raw'' ''Thermo Raw'', new_entry ''/work/a2.raw'' ''Thermo Raw'']"
  let ?bruker = "[new_entry ''/work/b.d'' ''Bruker D'', new_entry ''/work/c.d.zip'' ''Bruker D Zip'']"
  have h1: "(\<exists>e \<in> set ?mixed. type e = ''Thermo Raw'') \<and>
            (\<exists>e \<in> set ?mixed. type e = ''Bruker D'' \<or> type e = ''Bruker D Zip'')"
    by (simp add: new_entry_def)
  have h2: "?thermo \<noteq> [] \<and>
       ((\<forall>e \<in> set ?thermo. type e = ''Thermo Raw'') \<or>
        (\<forall>e \<in> set ?thermo. type e = ''Bruker D'') \<or>
        (\<forall>e \<in> set ?thermo. type e = ''Bruker D Zip'') \<or>
        (\<forall>e \<in> set ?thermo. type e = ''Bruker D'' \<or> type e = ''Bruker D Zip''))"
    by (simp add: new_entry_def)
  have h3: "?bruker \<noteq> [] \<and>
       ((\<forall>e \<in> set ?bruker. type e = ''Thermo Raw'') \<or>
        (\<forall>e \<in> set ?bruker. type e = ''Bruker D'') \<or>
        (\<forall>e \<in> set ?bruker. type e = ''Bruker D Zip'') \<or>
        (\<forall>e \<in> set ?bruker. type e = ''Bruker D'' \<or> type e = ''Bruker D Zip''))"
    by (simp add: new_entry_def)
  from validate_filetable_families [where ft = ?mixed, THEN conjunct1, THEN mp, OF h1]
       validate_filetable_families [where ft = ?thermo, THEN conjunct2, THEN mp, OF h2]
       validate_filetable_families [where ft = ?bruker, THEN conjunct2, THEN mp, OF h3]
  show ?thesis by (intro conjI)
qed

text \<open>
  Claim C9. The empty filetable is rejected by \<open>validate_filetable\<close>: the
  set of declared types is empty, so none of the three accepting branches
  applies.
\<close>

theorem validate_filetable_empty: "\<not> validate_filetable []"
  by (simp add: validate_filetable_def)

section \<open>Properties of argument assembly\<close>

lemma foldl_append_concat: "foldl (\<lambda>i j. i @ j) ys xs = ys @ concat xs"
  by (induction xs arbitrary: ys) simp_all

lemma foldl_datafiles:
  "foldl (\<lambda>args_list file. args_list @ [''-r'', path file]) ys fs
     = ys @ concat (map (\<lambda>file. [''-r'', path file]) fs)"
  by (induction fs arbitrary: ys) simp_all

lemma contribution_chain:
  "map f (filter P (x # xs)) = (if P x then [f x] else []) @ map f (filter P xs)"
  by simp

lemma parse_args_table:
  "parse_args a =
     map (\<lambda>opt. flag_value_pair opt a) (filter (\<lambda>opt. option_given opt a) option_table)"
  unfolding parse_args_def option_table_def
  by (simp only: contribution_chain option_given.simps flag_value_pair.simps
        filter.simps(1) list.map(1) append_Nil2)

lemma parse_args_nonempty:
  assumes "g \<in> set (parse_args a)"
  shows "g \<noteq> [] \<and> [] \<notin> set g"
proof -
  from assms obtain opt
    where "opt \<in> set option_table" "option_given opt a" "g = flag_value_pair opt a"
    unfolding parse_args_table by auto
  then show ?thesis
    by (auto simp: option_table_def)
qed

lemma get_args_concat: "get_args a = concat (parse_args a)"
  by (simp add: get_args_def foldl_append_concat)

text \<open>
  Claim C7. Argument assembly is a function of the options alone. The groups
  produced by \<open>_parse_args\<close> are exactly the flag and value pairs that the
  fixed option table assigns to the options that are given (non-empty
  strings, true booleans), in the table's order, and \<open>get_args\<close> is their
  concatenation; no group is empty or holds an empty string, so no flag is
  emitted with an empty value. \<open>get_full_args\<close> appends one \<open>-r\<close> and path
  for every data file.
\<close>

theorem argument_assembly:
  "parse_args a =
     map (\<lambda>opt. flag_value_pair opt a) (filter (\<lambda>opt. option_given opt a) option_table)
   \<and> get_args a = spec_args a
   \<and> (\<forall>g \<in> set (parse_args a). g \<noteq> [] \<and> [] \<notin> set g)
   \<and> [] \<notin> set (get_args a)
   \<and> get_full_args a = get_args a @ concat (map (\<lambda>file. [''-r'', path file]) (datafiles a))"
proof (intro conjI)
  show "parse_args a =
     map (\<lambda>opt. flag_value_pair opt a) (filter (\<lambda>opt. option_given opt a) option_table)"
    by (rule parse_args_table)
  then show "get_args a = spec_args a"
    by (simp add: get_args_concat spec_args_def)
  show "\<forall>g \<in> set (parse_args a). g \<noteq> [] \<and> [] \<notin> set g"
    using parse_args_nonempty by blast
  then show "[] \<notin> set (get_args a)"
    by (auto simp: get_args_concat)
  show "get_full_args a = get_args a @ concat (map (\<lambda>file. [''-r'', path file]) (datafiles a))"
    by (simp add: get_full_args_def get_args_def foldl_datafiles)
qed

theorem argument_assembly_witness:
  "[''-n'', ''exp''] \<in> set (parse_args example_args)
   \<and> [] \<notin> set [''-n'', ''exp'']
   \<and> get_args example_args =
        [''direct'', ''-n'', ''exp'', ''-s'', ''p.prop'', ''-fasta'', ''f.fasta'', ''-o'', ''out'',
         ''--verbose'', ''-segmented'']
   \<and> get_full_args example_args =
        [''direct'', ''-n'', ''exp'', ''-s'', ''p.prop'', ''-fasta'', ''f.fasta'', ''-o'', ''out'',
         ''--verbose'', ''-segmented'', ''-r'', ''/work/a.raw'']"
proof -
  note inst = argument_assembly [of example_args]
  have spec: "spec_args example_args =
        [''direct'', ''-n'', ''exp'', ''-s'', ''p.prop'', ''-fasta'', ''f.fasta'', ''-o'', ''out'',
         ''--verbose'', ''-segmented'']"
    by (simp add: spec_args_def option_table_def example_args_def)
  have mem: "[''-n'', ''exp''] \<in> set (parse_args example_args)"
    by (simp add: parse_args_def example_args_def)
  have ne: "[] \<notin> set [''-n'', ''exp'']"
    using inst [THEN conjunct2, THEN conjunct2, THEN conjunct1, THEN bspec, OF mem]
    by (rule conjunct2)
  have ga: "get_args example_args =
        [''direct'', ''-n'', ''exp'', ''-s'', ''p.prop'', ''-fasta'', ''f.fasta'', ''-o'', ''out'',
         ''--verbose'', ''-segmented'']"
    using inst [THEN conjunct2, THEN conjunct1] spec by (rule trans)
  have files: "concat (map (\<lambda>file. [''-r'', path file]) (datafiles example_args))
                 = [''-r'', ''/work/a.raw'']"
    by (simp add: example_args_def new_entry_def Path_def path_str_def)
  have full: "get_full_args example_args =
        [''direct'', ''-n'', ''exp'', ''-s'', ''p.prop'', ''-fasta'', ''f.fasta'', ''-o'', ''out'',
         ''--verbose'', ''-segmented'', ''-r'', ''/work/a.raw'']"
    using inst [THEN conjunct2, THEN conjunct2, THEN conjunct2, THEN conjunct2] ga files
    by simp
  from mem ne ga full show ?thesis by (intro conjI)
qed

section \<open>Properties of the archive extractor worker\<close>

lemma Path_marker: "Path ''analysis.tdf'' = PurePath False [''analysis.tdf'']"
  by (simp add: Path_def)

lemma joinpath_marker:
  "joinpath p ''analysis.tdf'' = PurePath (is_abs p) (parts p @ [''analysis.tdf''])"
  by (simp add: joinpath_def Path_marker)

lemma parent_of_marker: "path_parent (joinpath p ''analysis.tdf'') = p"
  by (simp add: joinpath_marker path_parent_def)

text \<open>
  Claim C4. The worker unpacks the archive into the destination directory.
  When unpacking raised nothing and \<open>analysis.tdf\<close> then exists directly
  below the destination, it returns the index, \<open>True\<close>, the directory that
  holds the marker (the destination itself) and an empty message. When the
  marker is missing, or unpacking raised, it returns the index, \<open>False\<close>,
  an empty path and the error message. These cases are exhaustive: the
  worker always returns a tuple.
\<close>

theorem extract_zip_worker_result:
  "fst (extract_zip_worker idx zip_path extract_path q env fs)
     = extractall fs extract_path (members env)
   \<and> path_parent (joinpath extract_path ''analysis.tdf'') = extract_path
   \<and> (zip_error env = None \<and>
       path_exists (fst (extract_zip_worker idx zip_path extract_path q env fs))
         (joinpath extract_path ''analysis.tdf'')
      \<longrightarrow> snd (snd (extract_zip_worker idx zip_path extract_path q env fs))
            = (idx, True, path_str extract_path, []))
   \<and> (zip_error env = None \<and>
       \<not> path_exists (fst (extract_zip_worker idx zip_path extract_path q env fs))
           (joinpath extract_path ''analysis.tdf'')
      \<longrightarrow> snd (snd (extract_zip_worker idx zip_path extract_path q env fs))
            = (idx, False, [], ''Missing analysis.tdf after extraction for '' @ path_str zip_path))
   \<and> (\<forall>e. zip_error env = Some e
      \<longrightarrow> snd (snd (extract_zip_worker idx zip_path extract_path q env fs))
            = (idx, False, [], e))"
  by (auto simp: extract_zip_worker_def Let_def parent_of_marker split: option.splits)

theorem extract_zip_worker_result_witness:
  "snd (snd (extract_zip_worker 0 (Path ''/work/c.d.zip'') (Path ''out/data/c.d'') None
               good_archive Map.empty))
     = (0, True, ''out/data/c.d'', [])
   \<and> snd (snd (extract_zip_worker 1 (Path ''/work/c.d.zip'') (Path ''out/data/c.d'') None
               unmarked_archive Map.empty))
     = (1, False, [], ''Missing analysis.tdf after extraction for /work/c.d.zip'')
   \<and> snd (snd (extract_zip_worker 2 (Path ''/work/c.d.zip'') (Path ''out/data/c.d'') None
               broken_archive Map.empty))
     = (2, False, [], ''File is not a zip file'')"
proof -
  let ?zp = "Path ''/work/c.d.zip''" and ?ep = "Path ''out/data/c.d''"
  note good = extract_zip_worker_result [of 0 ?zp ?ep None good_archive Map.empty]
  note unmarked = extract_zip_worker_result [of 1 ?zp ?ep None unmarked_archive Map.empty]
  note broken = extract_zip_worker_result [of 2 ?zp ?ep None broken_archive Map.empty]
  have str_ep: "path_str ?ep = ''out/data/c.d''"
    by (simp add: Path_def path_str_def)
  have str_zp: "path_str ?zp = ''/work/c.d.zip''"
    by (simp add: Path_def path_str_def)
  have h1: "zip_error good_archive = None \<and>
            path_exists (fst (extract_zip_worker 0 ?zp ?ep None good_archive Map.empty))
              (joinpath ?ep ''analysis.tdf'')"
    unfolding good [THEN conjunct1]
    by (simp add: good_archive_def extractall_def extract_member_def joinpath_marker
          path_exists_def Path_def path_parent_def ancestors_and_self_def)
  have h2: "zip_error unmarked_archive = None \<and>
            \<not> path_exists (fst (extract_zip_worker 1 ?zp ?ep None unmarked_archive Map.empty))
                (joinpath ?ep ''analysis.tdf'')"
    unfolding unmarked [THEN conjunct1]
    by (simp add: unmarked_archive_def extractall_def extract_member_def joinpath_marker
          path_exists_def Path_def path_parent_def ancestors_and_self_def)
  have h3: "zip_error broken_archive = Some ''File is not a zip file''"
    by (simp add: broken_archive_def)
  have r1: "snd (snd (extract_zip_worker 0 ?zp ?ep None good_archive Map.empty))
              = (0, True, ''out/data/c.d'', [])"
    using good [THEN conjunct2, THEN conjunct2, THEN conjunct1, THEN mp, OF h1]
    by (simp only: str_ep)
  have r2: "snd (snd (extract_zip_worker 1 ?zp ?ep None unmarked_archive Map.empty))
              = (1, False, [], ''Missing analysis.tdf after extraction for /work/c.d.zip'')"
    using unmarked [THEN conjunct2, THEN conjunct2, THEN conjunct2, THEN conjunct1, THEN mp, OF h2]
    by (simp add: str_zp)
  have r3: "snd (snd (extract_zip_worker 2 ?zp ?ep None broken_archive Map.empty))
              = (2, False, [], ''File is not a zip file'')"
    using broken [THEN conjunct2, THEN conjunct2, THEN conjunct2, THEN conjunct2, THEN spec,
                  THEN mp, OF h3] .
  from r1 r2 r3 show ?thesis by (intro conjI)
qed

section \<open>Properties of the command runner\<close>




lemma run_cmd_raises_only_cancellation:
  assumes "snd (run_cmd argv timeout env) = Inl e"
  shows "e = CancelledError"
    and "spawn_result env = Some CancelledError \<or> stream_result env = Some CancelledError
         \<or> wait_result env = WaitCancelled \<or> cleanup_wait env = WaitCancelled"
  using assms
  by (auto simp: run_cmd_def Let_def is_Exception_def
           split: option.splits exn.splits wait_outcome.splits if_splits)






section \<open>Properties of the condition table\<close>


lemma map_nth_upt: "map (\<lambda>i. f (xs ! i)) [0..<length xs] = map f xs"
proof -
  have "map (\<lambda>i. f (xs ! i)) [0..<length xs] = map f (map ((!) xs) [0..<length xs])"
    by simp
  then show ?thesis
    by (simp only: map_nth)
qed

lemma group_values_length:
  assumes "length keys = length col"
  shows "length (group_values keys col k) = length (filter (\<lambda>k'. k' = k) keys)"
proof -
  have "length (filter (\<lambda>kv. fst kv = k) (zip keys col))
          = length (filter (\<lambda>k'. k' = k) (map fst (zip keys col)))"
    by (simp add: filter_map comp_def)
  then show ?thesis
    using assms by (simp add: group_values_def)
qed

lemma group_position_less:
  assumes "i < length keys"
  shows "group_position keys i < length (filter (\<lambda>k'. k' = keys ! i) keys)"
proof -
  have "keys = take i keys @ keys ! i # drop (Suc i) keys"
    using assms by (rule id_take_nth_drop)
  then have "filter (\<lambda>k'. k' = keys ! i) keys
      = filter (\<lambda>k'. k' = keys ! i) (take i keys @ keys ! i # drop (Suc i) keys)"
    by simp
  then have "length (filter (\<lambda>k'. k' = keys ! i) keys)
      = length (filter (\<lambda>k'. k' = keys ! i) (take i keys)) + 1
        + length (filter (\<lambda>k'. k' = keys ! i) (drop (Suc i) keys))"
    by simp
  then show ?thesis
    by (simp add: group_position_def)
qed

lemma groupby_transform_range:
  assumes "length keys = length col"
  shows "groupby_transform keys (\<lambda>f. [1..<length f + 1]) col
           = map (\<lambda>i. Suc (group_position keys i)) [0..<length col]"
proof -
  have "[1..<length (group_values keys col (keys ! i)) + 1] ! group_position keys i
          = Suc (group_position keys i)" if "i < length col" for i
  proof -
    from that assms have "group_position keys i < length (group_values keys col (keys ! i))"
      by (simp add: group_values_length group_position_less)
    then show ?thesis
      by (simp del: upt_Suc)
  qed
  then show ?thesis
    by (simp add: groupby_transform_def)
qed

lemma group_position_append:
  assumes "i < length keys"
  shows "group_position (keys @ [x]) i = group_position keys i"
  using assms by (simp add: group_position_def nth_append)

lemma group_position_last:
  "group_position (keys @ [x]) (length keys) = length (filter (\<lambda>k. k = x) keys)"
  by (simp add: group_position_def)

lemma numbering_in_group:
  "map snd (filter (\<lambda>kv. fst kv = k)
        (zip keys (map (\<lambda>i. Suc (group_position keys i)) [0..<length keys])))
     = [1..<Suc (length (filter (\<lambda>k'. k' = k) keys))]"
proof (induction keys rule: rev_induct)
  case Nil
  then show ?case by simp
next
  case (snoc x keys)
  have positions: "map (\<lambda>i. Suc (group_position (keys @ [x]) i)) [0..<length (keys @ [x])]
      = map (\<lambda>i. Suc (group_position keys i)) [0..<length keys]
        @ [Suc (length (filter (\<lambda>k. k = x) keys))]"
    by (simp add: group_position_append group_position_last)
  have "zip (keys @ [x]) (map (\<lambda>i. Suc (group_position (keys @ [x]) i)) [0..<length (keys @ [x])])
      = zip keys (map (\<lambda>i. Suc (group_position keys i)) [0..<length keys])
        @ [(x, Suc (length (filter (\<lambda>k. k = x) keys)))]"
    unfolding positions by simp
  then show ?case
    using snoc.IH by simp
qed


lemma digit_char_is_digit: "d < 10 \<Longrightarrow> is_digit (digit_char d)"
  by (simp add: is_digit_def digit_char_def)

lemma str_nat_digits: "str_nat n \<noteq> [] \<and> (\<forall>c \<in> set (str_nat n). is_digit c)"
proof (induction n rule: str_nat.induct)
  case (1 n)
  show ?case
  proof (cases "n < 10")
    case True
    then show ?thesis
      by (subst str_nat.simps, subst str_nat.simps) (simp add: digit_char_is_digit)
  next
    case False
    with 1 have ih: "\<forall>c \<in> set (str_nat (n div 10)). is_digit c"
      by simp
    have "is_digit (digit_char (n mod 10))"
      by (rule digit_char_is_digit) simp
    with ih False show ?thesis
      by (subst str_nat.simps, subst (2) str_nat.simps) simp
  qed
qed

lemma whitespace_ends:
  "\<forall>w \<in> set whitespace. w \<noteq> [] \<and> \<not> is_digit (hd w) \<and> \<not> is_digit (last w)"
  by (simp add: whitespace_def is_digit_def)

lemma strip_prefixes_id:
  assumes "s \<noteq> []" "\<forall>w \<in> set ws. w \<noteq> [] \<longrightarrow> hd w \<noteq> hd s"
  shows "strip_prefixes ws s = s"
proof -
  obtain c s' where s: "s = c # s'"
    using assms(1) by (cases s) auto
  have "\<not> (w \<noteq> [] \<and> prefix w (c # s'))" if "w \<in> set ws" for w
  proof (cases w)
    case Nil
    then show ?thesis by simp
  next
    case (Cons x xs)
    with that assms(2) s show ?thesis by auto
  qed
  then have "find (\<lambda>w. w \<noteq> [] \<and> prefix w (c # s')) ws = None"
    by (simp add: find_None_iff)
  then show ?thesis
    by (simp add: s)
qed

lemma digit_lower: "is_digit c \<Longrightarrow> py_lower_char c = c"
  by (simp add: is_digit_def py_lower_char_def Let_def)

lemma py_strip_digits:
  assumes "\<forall>c \<in> set s. is_digit c"
  shows "py_strip s = s"
proof (cases "s = []")
  case True
  then show ?thesis
    by (simp add: py_strip_def)
next
  case False
  then have ends: "is_digit (hd s)" "is_digit (last s)"
    using assms by simp_all
  have front: "strip_prefixes whitespace s = s"
    using False ends(1) whitespace_ends by (intro strip_prefixes_id) auto
  have rear: "strip_prefixes (map rev whitespace) (rev s) = rev s"
    using False ends(2) whitespace_ends
    by (intro strip_prefixes_id) (auto simp: hd_rev)
  show ?thesis
    by (simp add: py_strip_def front rear)
qed

lemma py_lower_digits:
  assumes "\<forall>c \<in> set s. is_digit c"
  shows "py_lower s = s"
  using assms
proof (induction s rule: py_lower.induct)
  case (1 a b c s)
  then have "is_digit a"
    by simp
  then have "a \<noteq> CHR 0xE2"
    by (auto simp: is_digit_def)
  with 1 show ?case
    by (simp add: digit_lower)
qed (simp_all add: digit_lower)

lemma number_not_blank: "\<not> replicate_blank (str_nat n)"
proof -
  have d: "\<forall>c \<in> set (str_nat n). is_digit c" and ne: "str_nat n \<noteq> []"
    using str_nat_digits by blast+
  then have same: "py_lower (py_strip (str_nat n)) = str_nat n"
    by (simp add: py_strip_digits py_lower_digits)
  have "\<not> is_digit CHR ''n''"
    by (simp add: is_digit_def)
  then have "str_nat n \<noteq> ''none''" "str_nat n \<noteq> ''nan''"
    using d by auto
  with ne same show ?thesis
    by (simp add: replicate_blank_def)
qed


lemma zip_map_same: "zip (map f xs) (map g xs) = map (\<lambda>x. (f x, g x)) xs"
  by (induction xs) simp_all

lemma condition_table_length: "length (fst (condition_table ft)) = length ft"
  by (simp add: condition_table_def Let_def)

lemma condition_table_row:
  assumes "i < length ft"
  shows "seq_no (fst (condition_table ft) ! i) = Suc i"
    and "Reference (fst (condition_table ft) ! i) = reference (ft ! i)"
    and "Run_Label (fst (condition_table ft) ! i) = name (ft ! i)"
    and "Condition (fst (condition_table ft) ! i) = na_if_blank (condition (ft ! i))"
    and "Fraction (fst (condition_table ft) ! i) = na_if_blank (fraction (ft ! i))"
    and "Label (fst (condition_table ft) ! i) = Condition (fst (condition_table ft) ! i)"
    and "File_Name (fst (condition_table ft) ! i) = path_stem (Path (name (ft ! i)))"
  using assms by (simp_all add: condition_table_def Let_def del: upt_Suc)

lemma all_blank_conv:
  "list_all (\<lambda>c. replicate_blank (astype_str c)) (map (\<lambda>e. Text (replicate e)) ft)
     \<longleftrightarrow> (\<forall>e \<in> set ft. replicate_blank (replicate e))"
  by (simp add: list_all_iff astype_str_def)

lemma condition_table_replicates:
  "map Replicate (fst (condition_table ft)) =
     (if \<forall>e \<in> set ft. replicate_blank (replicate e)
      then map (\<lambda>i. Number (Suc (group_position (map group_key ft) i))) [0..<length ft]
      else map (\<lambda>e. Text (replicate e)) ft)"
proof -
  let ?keys = "zip (map (\<lambda>e. na_if_blank (fraction e)) ft) (map (\<lambda>e. na_if_blank (condition e)) ft)"
  let ?col = "map (\<lambda>e. Text (replicate e)) ft"
  let ?reps = "if list_all (\<lambda>c. replicate_blank (astype_str c)) ?col
               then map Number (groupby_transform ?keys (\<lambda>f. [1..<length f + 1]) ?col)
               else ?col"
  have keys: "?keys = map group_key ft"
    by (simp add: zip_map_same group_key_def)
  have len: "length ?reps = length ft"
    by (simp add: groupby_transform_def)
  have "map Replicate (fst (condition_table ft)) = map (\<lambda>i. ?reps ! i) [0..<length ft]"
    by (simp add: condition_table_def Let_def del: upt_Suc)
  also have "\<dots> = ?reps"
    using len map_nth [of ?reps] by simp
  also have "\<dots> = (if \<forall>e \<in> set ft. replicate_blank (replicate e)
      then map (\<lambda>i. Number (Suc (group_position (map group_key ft) i))) [0..<length ft]
      else map (\<lambda>e. Text (replicate e)) ft)"
  proof -
    have "groupby_transform (map group_key ft) (\<lambda>f. [1..<length f + 1]) ?col
            = map (\<lambda>i. Suc (group_position (map group_key ft) i)) [0..<length ?col]"
      by (rule groupby_transform_range) simp
    then show ?thesis
      unfolding all_blank_conv keys by (simp add: comp_def)
  qed
  finally show ?thesis .
qed

lemma condition_table_warning:
  "snd (condition_table ft) \<longleftrightarrow>
     (\<exists>e \<in> set ft. replicate_blank (replicate e))
     \<and> (\<exists>e \<in> set ft. \<not> replicate_blank (replicate e))"
proof (cases "\<forall>e \<in> set ft. replicate_blank (replicate e)")
  case True
  have "\<not> list_ex (\<lambda>c. replicate_blank (astype_str c)) (map Number ns)" for ns
    by (simp add: list_ex_iff astype_str_def number_not_blank)
  then have "snd (condition_table ft) = False"
    unfolding condition_table_def Let_def all_blank_conv snd_conv if_P [OF True]
    by (rule eq_False [THEN iffD2])
  with True show ?thesis by simp
next
  case False
  have "list_ex (\<lambda>c. replicate_blank (astype_str c)) (map (\<lambda>e. Text (replicate e)) ft)
          = (\<exists>e \<in> set ft. replicate_blank (replicate e))"
    by (simp add: list_ex_iff astype_str_def)
  then have "snd (condition_table ft) = (\<exists>e \<in> set ft. replicate_blank (replicate e))"
    unfolding condition_table_def Let_def all_blank_conv snd_conv if_not_P [OF False] .
  with False show ?thesis by blast
qed

lemma condition_table_groups:
  assumes "\<forall>e \<in> set ft. replicate_blank (replicate e)"
  shows "map Replicate (filter (\<lambda>r. (Fraction r, Condition r) = k) (fst (condition_table ft)))
      = map Number [1..<Suc (length (filter (\<lambda>r. (Fraction r, Condition r) = k)
                                       (fst (condition_table ft))))]"
proof -
  let ?rows = "fst (condition_table ft)"
  let ?keys = "map group_key ft"
  let ?nums = "map (\<lambda>i. Suc (group_position ?keys i)) [0..<length ?keys]"
  have row_keys: "map (\<lambda>r. (Fraction r, Condition r)) ?rows = ?keys"
    by (rule nth_equalityI)
       (simp_all add: condition_table_length condition_table_row group_key_def)
  have row_reps: "map Replicate ?rows = map Number ?nums"
    using assms by (simp add: condition_table_replicates)
  have pairs: "map (\<lambda>r. ((Fraction r, Condition r), Replicate r)) ?rows
                 = zip ?keys (map Number ?nums)"
    using zip_map_same [of "\<lambda>r. (Fraction r, Condition r)" ?rows Replicate]
    by (simp only: row_keys row_reps)
  have count: "length (filter (\<lambda>r. (Fraction r, Condition r) = k) ?rows)
                 = length (filter (\<lambda>k'. k' = k) ?keys)"
  proof -
    have "length (filter (\<lambda>k'. k' = k) (map (\<lambda>r. (Fraction r, Condition r)) ?rows))
            = length (filter (\<lambda>r. (Fraction r, Condition r) = k) ?rows)"
      by (simp add: filter_map comp_def)
    then show ?thesis
      by (simp only: row_keys)
  qed
  have "map Replicate (filter (\<lambda>r. (Fraction r, Condition r) = k) ?rows)
      = map snd (filter (\<lambda>kv. fst kv = k)
                  (map (\<lambda>r. ((Fraction r, Condition r), Replicate r)) ?rows))"
    by (simp add: filter_map comp_def)
  also have "\<dots> = map snd (filter (\<lambda>kv. fst kv = k) (zip ?keys (map Number ?nums)))"
    by (simp only: pairs)
  also have "\<dots> = map Number (map snd (filter (\<lambda>kv. fst kv = k) (zip ?keys ?nums)))"
    by (simp add: zip_map2 filter_map comp_def case_prod_unfold)
  also have "\<dots> = map Number [1..<Suc (length (filter (\<lambda>k'. k' = k) ?keys))]"
    by (simp only: numbering_in_group)
  finally show ?thesis
    by (simp only: count)
qed


lemma split_sep_plain: "c \<notin> set x \<Longrightarrow> split_sep c x = [x]"
  by (induction x) auto

lemma split_sep_append: "c \<notin> set x \<Longrightarrow> split_sep c (x @ c # rest) = x # split_sep c rest"
  by (induction x) auto

lemma split_join:
  assumes "cells \<noteq> []" "\<forall>x \<in> set cells. c \<notin> set x"
  shows "split_sep c (join_sep [c] cells) = cells"
  using assms
proof (induction cells)
  case Nil
  then show ?case by simp
next
  case (Cons x cells)
  show ?case
  proof (cases cells)
    case Nil
    with Cons.prems show ?thesis by (simp add: split_sep_plain)
  next
    case (Cons y ys)
    with Cons.IH Cons.prems have "split_sep c (join_sep [c] cells) = cells"
      by simp
    with Cons Cons.prems show ?thesis
      using split_sep_append [of c x "join_sep [c] cells"] by simp
  qed
qed

lemma write_conditon_file_log:
  assumes "ft \<noteq> []"
  shows "fst (write_conditon_file q ft p fs) =
           (if (\<exists>e \<in> set ft. replicate_blank (replicate e))
               \<and> (\<exists>e \<in> set ft. \<not> replicate_blank (replicate e))
            then [Log WARNING ''Only some replicates were assigned, check your input'']
            else [])"
  using assms by (simp add: write_conditon_file_def Let_def condition_table_warning)

lemma write_conditon_file_content:
  assumes "ft \<noteq> []"
  shows "snd (write_conditon_file q ft p fs) =
           write_text fs (Path p) (to_csv q (fst (condition_table ft)))"
  using assms by (simp add: write_conditon_file_def Let_def)

text \<open>
  Claim C5. When every replicate field of the batch is blank, the rows of
  the written condition table that share a fraction and a condition carry
  the replicate numbers 1, 2, ..., n in row order, and no warning is logged.
  When some but not all replicate fields are filled, every replicate value
  is written as it was entered and the warning is logged.
\<close>

theorem replicate_assignment:
  "(ft \<noteq> [] \<longrightarrow>
      snd (write_conditon_file q ft p fs)
        = write_text fs (Path p) (to_csv q (fst (condition_table ft))))
   \<and> ((\<forall>e \<in> set ft. replicate_blank (replicate e)) \<longrightarrow>
        (\<forall>f c. map Replicate
                  (filter (\<lambda>r. Fraction r = f \<and> Condition r = c) (fst (condition_table ft)))
               = map Number
                   [1..<Suc (length (filter (\<lambda>r. Fraction r = f \<and> Condition r = c)
                                       (fst (condition_table ft))))])
        \<and> (ft \<noteq> [] \<longrightarrow> fst (write_conditon_file q ft p fs) = []))
   \<and> ((\<exists>e \<in> set ft. replicate_blank (replicate e))
       \<and> (\<exists>e \<in> set ft. \<not> replicate_blank (replicate e)) \<longrightarrow>
        map Replicate (fst (condition_table ft)) = map (\<lambda>e. Text (replicate e)) ft
        \<and> fst (write_conditon_file q ft p fs)
            = [Log WARNING ''Only some replicates were assigned, check your input''])"
proof (intro conjI impI allI)
  assume "ft \<noteq> []"
  then show "snd (write_conditon_file q ft p fs)
        = write_text fs (Path p) (to_csv q (fst (condition_table ft)))"
    by (rule write_conditon_file_content)
next
  fix f c
  assume all: "\<forall>e \<in> set ft. replicate_blank (replicate e)"
  from condition_table_groups [OF all, of "(f, c)"]
  show "map Replicate
          (filter (\<lambda>r. Fraction r = f \<and> Condition r = c) (fst (condition_table ft)))
        = map Number
            [1..<Suc (length (filter (\<lambda>r. Fraction r = f \<and> Condition r = c)
                                (fst (condition_table ft))))]"
    by simp
next
  assume "\<forall>e \<in> set ft. replicate_blank (replicate e)" "ft \<noteq> []"
  then show "fst (write_conditon_file q ft p fs) = []"
    by (simp add: write_conditon_file_log)
next
  assume some: "(\<exists>e \<in> set ft. replicate_blank (replicate e))
       \<and> (\<exists>e \<in> set ft. \<not> replicate_blank (replicate e))"
  then have "\<not> (\<forall>e \<in> set ft. replicate_blank (replicate e))"
    by blast
  then show "map Replicate (fst (condition_table ft)) = map (\<lambda>e. Text (replicate e)) ft"
    unfolding condition_table_replicates by (rule if_not_P)
  from some have "ft \<noteq> []"
    by auto
  with some show "fst (write_conditon_file q ft p fs)
            = [Log WARNING ''Only some replicates were assigned, check your input'']"
    by (simp add: write_conditon_file_log)
qed

theorem replicate_assignment_witness:
  "map Replicate (filter (\<lambda>r. Fraction r = ''NA'' \<and> Condition r = ''A'')
                    (fst (condition_table blank_batch)))
     = [Number 1, Number 2]
   \<and> fst (write_conditon_file True blank_batch ''out/params/exp_condition.tsv'' Map.empty) = []
   \<and> map Replicate (filter (\<lambda>r. Fraction r = ''NA'' \<and> Condition r = ''A'')
                    (fst (condition_table spaced_batch)))
     = [Number 1, Number 2]
   \<and> fst (write_conditon_file True spaced_batch ''out/params/exp_condition.tsv'' Map.empty) = []
   \<and> map Replicate (fst (condition_table partial_batch)) = [Text ''1'', Text []]
   \<and> fst (write_conditon_file True partial_batch ''out/params/exp_condition.tsv'' Map.empty)
       = [Log WARNING ''Only some replicates were assigned, check your input'']"
proof -
  note blank = replicate_assignment
                 [of blank_batch True "''out/params/exp_condition.tsv''" Map.empty]
  note spaced = replicate_assignment
                 [of spaced_batch True "''out/params/exp_condition.tsv''" Map.empty]
  note part = replicate_assignment
                 [of partial_batch True "''out/params/exp_condition.tsv''" Map.empty]
  have h1: "\<forall>e \<in> set blank_batch. replicate_blank (replicate e)"
    by code_simp
  have ne: "blank_batch \<noteq> []"
    by (simp add: blank_batch_def)
  have n: "length (filter (\<lambda>r. Fraction r = ''NA'' \<and> Condition r = ''A'')
                     (fst (condition_table blank_batch))) = 2"
    by code_simp
  have r1: "map Replicate (filter (\<lambda>r. Fraction r = ''NA'' \<and> Condition r = ''A'')
                    (fst (condition_table blank_batch)))
     = [Number 1, Number 2]"
    using blank [THEN conjunct2, THEN conjunct1, THEN mp, OF h1, THEN conjunct1,
                 THEN spec, THEN spec, of "''NA''" "''A''"]
    unfolding n by (simp add: upt_rec)
  have r2: "fst (write_conditon_file True blank_batch ''out/params/exp_condition.tsv'' Map.empty) = []"
    using blank [THEN conjunct2, THEN conjunct1, THEN mp, OF h1, THEN conjunct2, THEN mp, OF ne] .
  have h1': "\<forall>e \<in> set spaced_batch. replicate_blank (replicate e)"
    by code_simp
  have ne': "spaced_batch \<noteq> []"
    by (simp add: spaced_batch_def)
  have n': "length (filter (\<lambda>r. Fraction r = ''NA'' \<and> Condition r = ''A'')
                     (fst (condition_table spaced_batch))) = 2"
    by code_simp
  have r1': "map Replicate (filter (\<lambda>r. Fraction r = ''NA'' \<and> Condition r = ''A'')
                    (fst (condition_table spaced_batch)))
     = [Number 1, Number 2]"
    using spaced [THEN conjunct2, THEN conjunct1, THEN mp, OF h1', THEN conjunct1,
                  THEN spec, THEN spec, of "''NA''" "''A''"]
    unfolding n' by (simp add: upt_rec)
  have r2': "fst (write_conditon_file True spaced_batch ''out/params/exp_condition.tsv'' Map.empty) = []"
    using spaced [THEN conjunct2, THEN conjunct1, THEN mp, OF h1', THEN conjunct2, THEN mp, OF ne'] .
  have h2: "(\<exists>e \<in> set partial_batch. replicate_blank (replicate e))
       \<and> (\<exists>e \<in> set partial_batch. \<not> replicate_blank (replicate e))"
    by code_simp
  have unchanged: "map (\<lambda>e. Text (replicate e)) partial_batch = [Text ''1'', Text []]"
    by (simp add: partial_batch_def sample_def)
  have r3: "map Replicate (fst (condition_table partial_batch)) = [Text ''1'', Text []]"
    using part [THEN conjunct2, THEN conjunct2, THEN mp, OF h2, THEN conjunct1] unchanged
    by (rule trans)
  have r4: "fst (write_conditon_file True partial_batch ''out/params/exp_condition.tsv'' Map.empty)
       = [Log WARNING ''Only some replicates were assigned, check your input'']"
    using part [THEN conjunct2, THEN conjunct2, THEN mp, OF h2, THEN conjunct2] .
  from r1 r2 r1' r2' r3 r4 show ?thesis by (intro conjI)
qed

lemma replicates_numbered_iff:
  "(\<forall>r \<in> set (fst (condition_table ft)). \<exists>n. Replicate r = Number n)
     \<longleftrightarrow> (\<forall>e \<in> set ft. replicate_blank (replicate e))"
proof -
  have "(\<forall>r \<in> set (fst (condition_table ft)). \<exists>n. Replicate r = Number n)
          \<longleftrightarrow> (\<forall>c \<in> set (map Replicate (fst (condition_table ft))). \<exists>n. c = Number n)"
    by simp
  also have "\<dots> \<longleftrightarrow> (\<forall>e \<in> set ft. replicate_blank (replicate e))"
  proof (cases "\<forall>e \<in> set ft. replicate_blank (replicate e)")
    case True
    then show ?thesis
      unfolding condition_table_replicates by auto
  next
    case False
    then obtain e where "e \<in> set ft"
      by blast
    then have "Text (replicate e) \<in> set (map (\<lambda>e. Text (replicate e)) ft)"
      by simp
    then have "\<not> (\<forall>c \<in> set (map (\<lambda>e. Text (replicate e)) ft). \<exists>n. c = Number n)"
      by blast
    with False show ?thesis
      unfolding condition_table_replicates by (simp only: if_False)
  qed
  finally show ?thesis .
qed

lemma whitespace_prefix_free:
  "\<forall>v \<in> set whitespace. \<forall>w \<in> set whitespace. prefix v w \<longrightarrow> v = w"
  by code_simp

lemma whitespace_suffix_free:
  "\<forall>v \<in> set (map rev whitespace). \<forall>w \<in> set (map rev whitespace). prefix v w \<longrightarrow> v = w"
  by code_simp

lemma whitespace_inner:
  "\<forall>v \<in> set whitespace. \<forall>w \<in> set whitespace. w \<noteq> [] \<and> hd w \<notin> set (tl v)"
  by code_simp

lemma find_the_word:
  assumes "w \<in> set ws" "w \<noteq> []"
    and free: "\<forall>v \<in> set ws. \<forall>w \<in> set ws. prefix v w \<longrightarrow> v = w"
  shows "find (\<lambda>v. v \<noteq> [] \<and> prefix v (w @ s)) ws = Some w"
proof (cases "find (\<lambda>v. v \<noteq> [] \<and> prefix v (w @ s)) ws")
  case None
  with assms(1,2) show ?thesis
    by (auto simp: find_None_iff)
next
  case (Some v)
  then have v: "v \<in> set ws" "prefix v (w @ s)"
    by (auto simp: find_Some_iff)
  then have "prefix v w \<or> prefix w v"
    by (auto simp: prefix_append)
  with free v(1) assms(1) have "v = w"
    by auto
  with Some show ?thesis
    by simp
qed

lemma strip_prefixes_word:
  assumes "w \<in> set ws" "w \<noteq> []"
    and free: "\<forall>v \<in> set ws. \<forall>w \<in> set ws. prefix v w \<longrightarrow> v = w"
  shows "strip_prefixes ws (w @ s) = strip_prefixes ws s"
proof -
  obtain c w' where w: "w = c # w'"
    using assms(2) by (cases w) auto
  have "find (\<lambda>v. v \<noteq> [] \<and> prefix v (c # w' @ s)) ws = Some w"
    using find_the_word [OF assms, of s] by (simp add: w)
  then show ?thesis
    by (simp add: w)
qed

lemma py_strip_leading:
  assumes "w \<in> set whitespace"
  shows "py_strip (w @ s) = py_strip s"
proof -
  have "w \<noteq> []"
    using assms whitespace_inner by blast
  with assms show ?thesis
    by (simp add: py_strip_def strip_prefixes_word whitespace_prefix_free)
qed

lemma strip_prefixes_append:
  assumes "w \<in> set ws" "w \<noteq> []"
    and "\<forall>v \<in> set ws. \<forall>w \<in> set ws. prefix v w \<longrightarrow> v = w"
    and "\<forall>v \<in> set ws. hd w \<notin> set (tl v)"
  shows "strip_prefixes ws (s @ w) =
           (if strip_prefixes ws s = [] then [] else strip_prefixes ws s @ w)"
  using assms
proof (induction ws s rule: strip_prefixes.induct)
  case (1 ws)
  have "strip_prefixes ws (w @ []) = strip_prefixes ws []"
    using "1.prems"(1,2,3) by (rule strip_prefixes_word)
  then show ?case
    by simp
next
  case (2 ws c s)
  note w = "2.prems"(1,2) and free = "2.prems"(3) and inner = "2.prems"(4)
  show ?case
  proof (cases "find (\<lambda>v. v \<noteq> [] \<and> prefix v (c # s)) ws")
    case (Some v)
    then have v: "v \<in> set ws" "v \<noteq> []" "prefix v (c # s)"
      by (auto simp: find_Some_iff)
    then obtain t where t: "c # s = v @ t"
      by (auto simp: prefix_def)
    with v(2) have dt: "drop (length v - 1) s = t"
      by (cases v) auto
    have left: "strip_prefixes ws (c # s) = strip_prefixes ws t"
      using Some dt by simp
    have "strip_prefixes ws ((c # s) @ w) = strip_prefixes ws (v @ t @ w)"
      by (simp only: t append_assoc)
    also have "\<dots> = strip_prefixes ws (t @ w)"
      using v(1,2) free by (rule strip_prefixes_word)
    also have "\<dots> = (if strip_prefixes ws t = [] then [] else strip_prefixes ws t @ w)"
      using "2.IH" [OF Some w free inner] unfolding dt .
    finally show ?thesis
      by (simp only: left)
  next
    case None
    have "\<not> (v \<noteq> [] \<and> prefix v (c # s @ w))" if "v \<in> set ws" for v
    proof
      assume a: "v \<noteq> [] \<and> prefix v (c # s @ w)"
      from None have "\<forall>x. x \<in> set ws \<longrightarrow> \<not> (x \<noteq> [] \<and> prefix x (c # s))"
        by (simp only: find_None_iff) blast
      with that a have np: "\<not> prefix v (c # s)"
        by blast
      from a have "prefix v ((c # s) @ w)"
        by simp
      then have "prefix v (c # s) \<or> (\<exists>us. v = (c # s) @ us \<and> prefix us w)"
        by (simp only: prefix_append)
      with np obtain us where us: "v = (c # s) @ us" "prefix us w"
        by blast
      with np have ne: "us \<noteq> []"
        by auto
      from us(1) ne have "hd us \<in> set (tl v)"
        by simp
      moreover from us(2) ne have "hd us = hd w"
        by (cases us; cases w) simp_all
      ultimately have "hd w \<in> set (tl v)"
        by simp
      with inner that show False
        by simp
    qed
    then have "find (\<lambda>v. v \<noteq> [] \<and> prefix v (c # s @ w)) ws = None"
      by (simp add: find_None_iff)
    with None show ?thesis
      by simp
  qed
qed

lemma py_strip_trailing:
  assumes "w \<in> set whitespace"
  shows "py_strip (s @ w) = py_strip s"
proof -
  have ne: "w \<noteq> []"
    using assms whitespace_inner by blast
  have inner: "\<forall>v \<in> set whitespace. hd w \<notin> set (tl v)"
    using assms whitespace_inner by blast
  have front: "strip_prefixes whitespace (s @ w) =
           (if strip_prefixes whitespace s = [] then [] else strip_prefixes whitespace s @ w)"
    using assms ne whitespace_prefix_free inner by (rule strip_prefixes_append)
  have rw: "rev w \<in> set (map rev whitespace)" "rev w \<noteq> []"
    using assms ne by simp_all
  have rear: "strip_prefixes (map rev whitespace) (rev w @ t) = strip_prefixes (map rev whitespace) t" for t
    using rw whitespace_suffix_free by (rule strip_prefixes_word)
  show ?thesis
    unfolding py_strip_def front by (simp add: rear)
qed

lemma replicate_blank_padding:
  assumes "w \<in> set whitespace"
  shows "replicate_blank (w @ s) = replicate_blank s"
    and "replicate_blank (s @ w) = replicate_blank s"
  using assms by (simp_all add: replicate_blank_def py_strip_leading py_strip_trailing)

text \<open>
  Claim C10. A replicate field counts as blank when, trimmed and lowercased,
  it is empty, \<open>none\<close> or \<open>nan\<close>; the empty string is one such field,
  and a whitespace character put before or after a field, be it an ASCII
  one or one beyond ASCII, does not change whether the field is blank.
  Replicate numbers are assigned exactly when every field of the batch is
  blank in this sense, and the warning is raised exactly when some field is
  blank in this sense and some field is not.
\<close>

theorem replicate_blank_notion:
  "(replicate_blank s \<longleftrightarrow>
      py_lower (py_strip s) = [] \<or> py_lower (py_strip s) = ''none''
      \<or> py_lower (py_strip s) = ''nan'')
   \<and> replicate_blank []
   \<and> (\<forall>w \<in> set whitespace.
         replicate_blank (w @ s) = replicate_blank s
         \<and> replicate_blank (s @ w) = replicate_blank s)
   \<and> ((\<forall>r \<in> set (fst (condition_table ft)). \<exists>n. Replicate r = Number n)
        \<longleftrightarrow> (\<forall>e \<in> set ft. replicate_blank (replicate e)))
   \<and> (snd (condition_table ft) \<longleftrightarrow>
        (\<exists>e \<in> set ft. replicate_blank (replicate e))
        \<and> (\<exists>e \<in> set ft. \<not> replicate_blank (replicate e)))
   \<and> (ft \<noteq> [] \<longrightarrow>
        fst (write_conditon_file q ft p fs) =
          (if (\<exists>e \<in> set ft. replicate_blank (replicate e))
              \<and> (\<exists>e \<in> set ft. \<not> replicate_blank (replicate e))
           then [Log WARNING ''Only some replicates were assigned, check your input'']
           else []))"
proof (intro conjI impI ballI)
  show "replicate_blank s \<longleftrightarrow>
      py_lower (py_strip s) = [] \<or> py_lower (py_strip s) = ''none''
      \<or> py_lower (py_strip s) = ''nan''"
    by (simp add: replicate_blank_def)
  show "replicate_blank []"
    by (simp add: replicate_blank_def py_strip_def)
  show "(\<forall>r \<in> set (fst (condition_table ft)). \<exists>n. Replicate r = Number n)
        \<longleftrightarrow> (\<forall>e \<in> set ft. replicate_blank (replicate e))"
    by (rule replicates_numbered_iff)
  show "snd (condition_table ft) \<longleftrightarrow>
        (\<exists>e \<in> set ft. replicate_blank (replicate e))
        \<and> (\<exists>e \<in> set ft. \<not> replicate_blank (replicate e))"
    by (rule condition_table_warning)
next
  fix w
  assume "w \<in> set whitespace"
  then show "replicate_blank (w @ s) = replicate_blank s"
    and "replicate_blank (s @ w) = replicate_blank s"
    by (rule replicate_blank_padding)+
next
  assume "ft \<noteq> []"
  then show "fst (write_conditon_file q ft p fs) =
          (if (\<exists>e \<in> set ft. replicate_blank (replicate e))
              \<and> (\<exists>e \<in> set ft. \<not> replicate_blank (replicate e))
           then [Log WARNING ''Only some replicates were assigned, check your input'']
           else [])"
    by (rule write_conditon_file_log)
qed

theorem replicate_blank_notion_witness:
  "replicate_blank '' None ''
   \<and> replicate_blank ''NaN''
   \<and> replicate_blank ([CHR 0xC2, CHR 0xA0] @ ''NaN'')
   \<and> replicate_blank ([] @ [CHR 0xC2, CHR 0xA0])
   \<and> list_all (\<lambda>r. \<exists>n. Replicate r = Number n) (fst (condition_table unset_batch))
   \<and> snd (condition_table half_set_batch)
   \<and> fst (write_conditon_file True half_set_batch ''out/params/exp_condition.tsv'' Map.empty)
       = [Log WARNING ''Only some replicates were assigned, check your input'']"
proof -
  have s1: "py_lower (py_strip '' None '') = [] \<or> py_lower (py_strip '' None '') = ''none''
            \<or> py_lower (py_strip '' None '') = ''nan''"
    by code_simp
  have s2: "py_lower (py_strip ''NaN'') = [] \<or> py_lower (py_strip ''NaN'') = ''none''
            \<or> py_lower (py_strip ''NaN'') = ''nan''"
    by code_simp
  have r1: "replicate_blank '' None ''"
    using replicate_blank_notion [THEN conjunct1, THEN iffD2, OF s1] .
  have r2: "replicate_blank ''NaN''"
    using replicate_blank_notion [THEN conjunct1, THEN iffD2, OF s2] .
  have nbsp: "[CHR 0xC2, CHR 0xA0] \<in> set whitespace"
    by (simp add: whitespace_def)
  have r3: "replicate_blank ([CHR 0xC2, CHR 0xA0] @ ''NaN'')"
    using replicate_blank_notion [THEN conjunct2, THEN conjunct2, THEN conjunct1, THEN bspec,
                                  OF nbsp, THEN conjunct1, THEN iffD2, OF r2] .
  have r0: "replicate_blank []"
    using replicate_blank_notion [THEN conjunct2, THEN conjunct1] .
  have r4: "replicate_blank ([] @ [CHR 0xC2, CHR 0xA0])"
    using replicate_blank_notion [THEN conjunct2, THEN conjunct2, THEN conjunct1, THEN bspec,
                                  OF nbsp, THEN conjunct2, THEN iffD2, OF r0] .
  have h3: "\<forall>e \<in> set unset_batch. replicate_blank (replicate e)"
    by code_simp
  have r5: "list_all (\<lambda>r. \<exists>n. Replicate r = Number n) (fst (condition_table unset_batch))"
    unfolding list_all_iff
    using replicate_blank_notion [THEN conjunct2, THEN conjunct2, THEN conjunct2, THEN conjunct1,
                                  THEN iffD2, OF h3] .
  have h4: "(\<exists>e \<in> set half_set_batch. replicate_blank (replicate e))
        \<and> (\<exists>e \<in> set half_set_batch. \<not> replicate_blank (replicate e))"
    by code_simp
  have r6: "snd (condition_table half_set_batch)"
    using replicate_blank_notion [THEN conjunct2, THEN conjunct2, THEN conjunct2, THEN conjunct2,
                                  THEN conjunct1, THEN iffD2, OF h4] .
  have ne: "half_set_batch \<noteq> []"
    by (simp add: half_set_batch_def)
  have r7: "fst (write_conditon_file True half_set_batch ''out/params/exp_condition.tsv'' Map.empty)
       = [Log WARNING ''Only some replicates were assigned, check your input'']"
    using replicate_blank_notion [THEN conjunct2, THEN conjunct2, THEN conjunct2, THEN conjunct2,
                                  THEN conjunct2, THEN mp, OF ne,
                                  of True "''out/params/exp_condition.tsv''" Map.empty]
          h4
    by simp
  from r1 r2 r3 r4 r5 r6 r7 show ?thesis by (intro conjI)
qed

lemma row_cells_nth:
  assumes "i < length ft"
  shows "row_cells (fst (condition_table ft) ! i) =
           [str_nat (Suc i), str_bool (reference (ft ! i)), name (ft ! i),
            (if condition (ft ! i) = [] then ''NA'' else condition (ft ! i)),
            (if fraction (ft ! i) = [] then ''NA'' else fraction (ft ! i)),
            astype_str (Replicate (fst (condition_table ft) ! i)),
            (if condition (ft ! i) = [] then ''NA'' else condition (ft ! i)),
            path_stem (Path (name (ft ! i)))]"
  using assms
  by (simp add: row_cells_def condition_table_row na_if_blank_def)

lemma csv_line_plain:
  assumes "\<forall>x \<in> set cells. \<forall>c \<in> set x. c \<notin> {CHR 0x09, CHR 0x22, CHR 0x0A, CHR 0x0D}"
  shows "csv_line q cells = join_sep [CHR 0x09] cells @ [CHR 0x0A]"
proof -
  have "csv_field q x = x" if "x \<in> set cells" for x
    using assms that by (auto simp: csv_field_def list_ex_iff)
  then have "map (csv_field q) cells = cells"
    by (simp add: map_idI)
  then show ?thesis
    by (simp add: csv_line_def)
qed

lemma write_text_result:
  "write_text fs p content =
     (if is_dir fs (path_parent p) \<and> \<not> is_dir fs p then Inr (fs(p \<mapsto> File content))
      else if \<not> is_dir fs (path_parent p) then Inl (PyException ''OSError'')
      else Inl (PyException ''IsADirectoryError''))"
  by (simp add: write_text_def)

lemma read_tsv_plain:
  assumes "CHR 0x09 \<notin> set x" "CHR 0x22 \<notin> set x" "CHR 0x0A \<notin> set x" "st \<noteq> InQuotedField"
  shows "read_tsv st fld row (x @ CHR 0x09 # rest) = read_tsv StartField [] (row @ [fld @ x]) rest"
    and "read_tsv st fld row (x @ CHR 0x0A # rest)
           = (row @ [fld @ x]) # read_tsv StartField [] [] rest"
  using assms by (induction x arbitrary: st fld) auto

lemma read_tsv_quoted:
  "read_tsv InQuotedField fld row
     (concat (map (\<lambda>c. if c = CHR 0x22 then [c, c] else [c]) x) @ CHR 0x22 # CHR 0x09 # rest)
     = read_tsv StartField [] (row @ [fld @ x]) rest"
  "read_tsv InQuotedField fld row
     (concat (map (\<lambda>c. if c = CHR 0x22 then [c, c] else [c]) x) @ CHR 0x22 # CHR 0x0A # rest)
     = (row @ [fld @ x]) # read_tsv StartField [] [] rest"
  by (induction x arbitrary: fld) simp_all

lemma read_tsv_field:
  "read_tsv StartField [] row (csv_field q x @ CHR 0x09 # rest)
     = read_tsv StartField [] (row @ [x]) rest"
  "read_tsv StartField [] row (csv_field q x @ CHR 0x0A # rest)
     = (row @ [x]) # read_tsv StartField [] [] rest"
proof -
  let ?quoted = "list_ex (\<lambda>c. c \<in> set ([CHR 0x09, CHR 0x22, CHR 0x0A]
                                        @ (if q then [CHR 0x0D] else []))) x"
  have "read_tsv StartField [] row (csv_field q x @ CHR 0x09 # rest)
          = read_tsv StartField [] (row @ [x]) rest
        \<and> read_tsv StartField [] row (csv_field q x @ CHR 0x0A # rest)
          = (row @ [x]) # read_tsv StartField [] [] rest"
  proof (cases ?quoted)
    case True
    then have "csv_field q x
        = CHR 0x22 # concat (map (\<lambda>c. if c = CHR 0x22 then [c, c] else [c]) x) @ [CHR 0x22]"
      by (simp add: csv_field_def)
    then show ?thesis
      using read_tsv_quoted [of "[]" row x rest] by simp
  next
    case False
    then have plain: "CHR 0x09 \<notin> set x" "CHR 0x22 \<notin> set x" "CHR 0x0A \<notin> set x"
      by (auto simp: list_ex_iff)
    from False have "csv_field q x = x"
      by (simp add: csv_field_def)
    then show ?thesis
      using read_tsv_plain [OF plain, of StartField "[]" row rest] by simp
  qed
  then show "read_tsv StartField [] row (csv_field q x @ CHR 0x09 # rest)
     = read_tsv StartField [] (row @ [x]) rest"
    and "read_tsv StartField [] row (csv_field q x @ CHR 0x0A # rest)
     = (row @ [x]) # read_tsv StartField [] [] rest"
    by simp_all
qed

lemma join_sep_Cons: "xs \<noteq> [] \<Longrightarrow> join_sep sep (x # xs) = x @ sep @ join_sep sep xs"
  by (cases xs) simp_all

lemma read_tsv_line:
  assumes "cells \<noteq> []"
  shows "read_tsv StartField [] row (csv_line q cells @ rest)
           = (row @ cells) # read_tsv StartField [] [] rest"
  using assms
proof (induction cells arbitrary: row rule: list_nonempty_induct)
  case (single x)
  show ?case
    by (simp add: csv_line_def read_tsv_field)
next
  case (cons x xs)
  have "csv_line q (x # xs) @ rest = csv_field q x @ CHR 0x09 # (csv_line q xs @ rest)"
    using cons.hyps by (simp add: csv_line_def join_sep_Cons)
  then show ?case
    by (simp add: read_tsv_field cons.IH)
qed

lemma read_tsv_lines:
  assumes "\<forall>r \<in> set rows. r \<noteq> []"
  shows "read_tsv StartField [] [] (concat (map (csv_line q) rows)) = rows"
  using assms by (induction rows) (simp_all add: read_tsv_line)

lemma read_tsv_to_csv:
  "read_tsv StartField [] [] (to_csv q rows) = csv_header # map row_cells rows"
  unfolding to_csv_def
  by (rule read_tsv_lines) (auto simp: csv_header_def row_cells_def)

text \<open>
  Claim C8. For a non-empty filetable and a path that can be written (its
  parent is a directory and the path itself is not), the call leaves a file
  at the path that holds the rendering of the table, and changes nothing
  else; for a path that cannot be written it raises and writes nothing. The
  rendering is tab-separated: read as a tab-separated file it yields the
  header and then one record per entry, in order, whatever the cells hold,
  tabs, quotes and line breaks included. The header names the eight columns;
  record \<open>i\<close> (from 0) holds the sequence number \<open>i + 1\<close>, the reference
  flag, the run label, the condition, the fraction, the replicate, the
  label, which is the condition again, and the stem of the file name; a
  blank condition or fraction is written as \<open>NA\<close>. A line whose cells
  hold no tab, quote or line break is these cells joined by tabs. For the
  empty filetable nothing is written: the first column access raises.
\<close>

theorem condition_table_format:
  "(ft \<noteq> [] \<longrightarrow>
     (is_dir fs (path_parent (Path p)) \<and> \<not> is_dir fs (Path p) \<longrightarrow>
        snd (write_conditon_file q ft p fs)
          = Inr (fs(Path p \<mapsto> File (to_csv q (fst (condition_table ft))))))
     \<and> (\<not> (is_dir fs (path_parent (Path p)) \<and> \<not> is_dir fs (Path p)) \<longrightarrow>
          (\<exists>e. snd (write_conditon_file q ft p fs) = Inl e))
     \<and> read_tsv StartField [] [] (to_csv q (fst (condition_table ft)))
         = csv_header # map row_cells (fst (condition_table ft))
     \<and> csv_header = [''#'', ''Reference'', ''Run Label'', ''Condition'', ''Fraction'',
                      ''Replicate'', ''Label'', ''File Name'']
     \<and> length (fst (condition_table ft)) = length ft
     \<and> (\<forall>i < length ft.
           row_cells (fst (condition_table ft) ! i) =
             [str_nat (Suc i), str_bool (reference (ft ! i)), name (ft ! i),
              (if condition (ft ! i) = [] then ''NA'' else condition (ft ! i)),
              (if fraction (ft ! i) = [] then ''NA'' else fraction (ft ! i)),
              astype_str (Replicate (fst (condition_table ft) ! i)),
              (if condition (ft ! i) = [] then ''NA'' else condition (ft ! i)),
              path_stem (Path (name (ft ! i)))])
     \<and> (\<forall>cells.
           (\<forall>x \<in> set cells. \<forall>c \<in> set x. c \<notin> {CHR 0x09, CHR 0x22, CHR 0x0A, CHR 0x0D})
           \<longrightarrow> csv_line q cells = join_sep [CHR 0x09] cells @ [CHR 0x0A]))
   \<and> write_conditon_file q [] p fs = ([], Inl (PyException ''KeyError''))"
proof (intro impI conjI allI)
  show "write_conditon_file q [] p fs = ([], Inl (PyException ''KeyError''))"
    by (simp add: write_conditon_file_def)
next
  assume ne: "ft \<noteq> []"
  then have w: "snd (write_conditon_file q ft p fs)
                  = write_text fs (Path p) (to_csv q (fst (condition_table ft)))"
    by (rule write_conditon_file_content)
  show "snd (write_conditon_file q ft p fs)
          = Inr (fs(Path p \<mapsto> File (to_csv q (fst (condition_table ft)))))"
    if "is_dir fs (path_parent (Path p)) \<and> \<not> is_dir fs (Path p)"
    using that unfolding w write_text_result by simp
  show "\<exists>e. snd (write_conditon_file q ft p fs) = Inl e"
    if "\<not> (is_dir fs (path_parent (Path p)) \<and> \<not> is_dir fs (Path p))"
    using that unfolding w write_text_result by auto
  show "read_tsv StartField [] [] (to_csv q (fst (condition_table ft)))
         = csv_header # map row_cells (fst (condition_table ft))"
    by (rule read_tsv_to_csv)
  show "csv_header = [''#'', ''Reference'', ''Run Label'', ''Condition'', ''Fraction'',
                      ''Replicate'', ''Label'', ''File Name'']"
    by (simp add: csv_header_def)
  show "length (fst (condition_table ft)) = length ft"
    by (rule condition_table_length)
next
  fix i
  assume "i < length ft"
  then show "row_cells (fst (condition_table ft) ! i) =
             [str_nat (Suc i), str_bool (reference (ft ! i)), name (ft ! i),
              (if condition (ft ! i) = [] then ''NA'' else condition (ft ! i)),
              (if fraction (ft ! i) = [] then ''NA'' else fraction (ft ! i)),
              astype_str (Replicate (fst (condition_table ft) ! i)),
              (if condition (ft ! i) = [] then ''NA'' else condition (ft ! i)),
              path_stem (Path (name (ft ! i)))]"
    by (rule row_cells_nth)
next
  fix cells :: "string list"
  assume "\<forall>x \<in> set cells. \<forall>c \<in> set x. c \<notin> {CHR 0x09, CHR 0x22, CHR 0x0A, CHR 0x0D}"
  then show "csv_line q cells = join_sep [CHR 0x09] cells @ [CHR 0x0A]"
    by (rule csv_line_plain)
qed

theorem condition_table_format_witness:
  "snd (write_conditon_file False quoted_batch ''out/params/exp_condition.tsv'' out_tree)
     = Inr (out_tree(Path ''out/params/exp_condition.tsv''
              \<mapsto> File (to_csv False (fst (condition_table quoted_batch)))))
   \<and> (\<exists>e. snd (write_conditon_file False quoted_batch ''out/params/exp_condition.tsv'' Map.empty)
             = Inl e)
   \<and> read_tsv StartField [] [] (to_csv False (fst (condition_table quoted_batch)))
      = [[''#'', ''Reference'', ''Run Label'', ''Condition'', ''Fraction'', ''Replicate'',
          ''Label'', ''File Name''],
         [''1'', ''False'', ''a.raw'', [CHR ''A'', CHR 0x09, CHR 0x22, CHR ''B'', CHR 0x22],
          ''NA'', ''1'', [CHR ''A'', CHR 0x09, CHR 0x22, CHR ''B'', CHR 0x22], ''a''],
         [''2'', ''True'', ''b.raw'', ''NA'', [CHR ''f'', CHR 0x0D, CHR 0x0A, CHR ''1''], ''1'',
          ''NA'', ''b'']]
   \<and> row_cells (fst (condition_table quoted_batch) ! 1)
      = [''2'', ''True'', ''b.raw'', ''NA'', [CHR ''f'', CHR 0x0D, CHR 0x0A, CHR ''1''], ''1'',
         ''NA'', ''b'']
   \<and> length (fst (condition_table quoted_batch)) = 2
   \<and> csv_line False [''2'', ''True'', ''b.raw'', ''NA'', ''NA'', ''1'', ''NA'', ''b'']
      = join_sep [CHR 0x09] [''2'', ''True'', ''b.raw'', ''NA'', ''NA'', ''1'', ''NA'', ''b'']
          @ [CHR 0x0A]"
proof -
  have ne: "quoted_batch \<noteq> []"
    by (simp add: quoted_batch_def)
  note inst = condition_table_format
                [of quoted_batch out_tree "''out/params/exp_condition.tsv''" False,
                 THEN conjunct1, THEN mp, OF ne]
  note miss = condition_table_format
                [of quoted_batch Map.empty "''out/params/exp_condition.tsv''" False,
                 THEN conjunct1, THEN mp, OF ne]
  have can: "is_dir out_tree (path_parent (Path ''out/params/exp_condition.tsv''))
             \<and> \<not> is_dir out_tree (Path ''out/params/exp_condition.tsv'')"
    by code_simp
  have r1: "snd (write_conditon_file False quoted_batch ''out/params/exp_condition.tsv'' out_tree)
     = Inr (out_tree(Path ''out/params/exp_condition.tsv''
              \<mapsto> File (to_csv False (fst (condition_table quoted_batch)))))"
    using inst [THEN conjunct1, THEN mp, OF can] .
  have cannot: "\<not> (is_dir Map.empty (path_parent (Path ''out/params/exp_condition.tsv''))
             \<and> \<not> is_dir Map.empty (Path ''out/params/exp_condition.tsv''))"
    by code_simp
  have r2: "\<exists>e. snd (write_conditon_file False quoted_batch ''out/params/exp_condition.tsv''
                       Map.empty) = Inl e"
    using miss [THEN conjunct2, THEN conjunct1, THEN mp, OF cannot] .
  have records: "csv_header # map row_cells (fst (condition_table quoted_batch))
      = [[''#'', ''Reference'', ''Run Label'', ''Condition'', ''Fraction'', ''Replicate'',
          ''Label'', ''File Name''],
         [''1'', ''False'', ''a.raw'', [CHR ''A'', CHR 0x09, CHR 0x22, CHR ''B'', CHR 0x22],
          ''NA'', ''1'', [CHR ''A'', CHR 0x09, CHR 0x22, CHR ''B'', CHR 0x22], ''a''],
         [''2'', ''True'', ''b.raw'', ''NA'', [CHR ''f'', CHR 0x0D, CHR 0x0A, CHR ''1''], ''1'',
          ''NA'', ''b'']]"
    by code_simp
  have r3: "read_tsv StartField [] [] (to_csv False (fst (condition_table quoted_batch)))
      = [[''#'', ''Reference'', ''Run Label'', ''Condition'', ''Fraction'', ''Replicate'',
          ''Label'', ''File Name''],
         [''1'', ''False'', ''a.raw'', [CHR ''A'', CHR 0x09, CHR 0x22, CHR ''B'', CHR 0x22],
          ''NA'', ''1'', [CHR ''A'', CHR 0x09, CHR 0x22, CHR ''B'', CHR 0x22], ''a''],
         [''2'', ''True'', ''b.raw'', ''NA'', [CHR ''f'', CHR 0x0D, CHR 0x0A, CHR ''1''], ''1'',
          ''NA'', ''b'']]"
    using inst [THEN conjunct2, THEN conjunct2, THEN conjunct1] records by (rule trans)
  have i: "1 < length quoted_batch"
    by (simp add: quoted_batch_def)
  have cells: "[str_nat (Suc 1), str_bool (reference (quoted_batch ! 1)), name (quoted_batch ! 1),
              (if condition (quoted_batch ! 1) = [] then ''NA'' else condition (quoted_batch ! 1)),
              (if fraction (quoted_batch ! 1) = [] then ''NA'' else fraction (quoted_batch ! 1)),
              astype_str (Replicate (fst (condition_table quoted_batch) ! 1)),
              (if condition (quoted_batch ! 1) = [] then ''NA'' else condition (quoted_batch ! 1)),
              path_stem (Path (name (quoted_batch ! 1)))]
            = [''2'', ''True'', ''b.raw'', ''NA'', [CHR ''f'', CHR 0x0D, CHR 0x0A, CHR ''1''],
               ''1'', ''NA'', ''b'']"
    by code_simp
  have r4: "row_cells (fst (condition_table quoted_batch) ! 1)
     = [''2'', ''True'', ''b.raw'', ''NA'', [CHR ''f'', CHR 0x0D, CHR 0x0A, CHR ''1''], ''1'',
        ''NA'', ''b'']"
    using inst [THEN conjunct2, THEN conjunct2, THEN conjunct2, THEN conjunct2, THEN conjunct2,
                THEN conjunct1, THEN spec, THEN mp, OF i] cells
    by (rule trans)
  have len: "length quoted_batch = 2"
    by (simp add: quoted_batch_def)
  have r5: "length (fst (condition_table quoted_batch)) = 2"
    using inst [THEN conjunct2, THEN conjunct2, THEN conjunct2, THEN conjunct2, THEN conjunct1] len
    by (rule trans)
  have plain: "\<forall>x \<in> set [''2'', ''True'', ''b.raw'', ''NA'', ''NA'', ''1'', ''NA'', ''b''].
              \<forall>c \<in> set x. c \<notin> {CHR 0x09, CHR 0x22, CHR 0x0A, CHR 0x0D}"
    by simp
  have r6: "csv_line False [''2'', ''True'', ''b.raw'', ''NA'', ''NA'', ''1'', ''NA'', ''b'']
      = join_sep [CHR 0x09] [''2'', ''True'', ''b.raw'', ''NA'', ''NA'', ''1'', ''NA'', ''b'']
          @ [CHR 0x0A]"
    using inst [THEN conjunct2, THEN conjunct2, THEN conjunct2, THEN conjunct2, THEN conjunct2,
                THEN conjunct2, THEN spec, THEN mp, OF plain] .
  from r1 r2 r3 r4 r5 r6 show ?thesis by (intro conjI)
qed

section \<open>Properties of the DirectDIA workflow\<close>

subsection \<open>Stretches of the trace without commands\<close>









lemma spawned_append: "spawned (xs @ ys) = spawned xs @ spawned ys"
  by (simp add: spawned_def)









subsection \<open>The three-command stage\<close>

lemma run_cmd_outcome: "snd (run_cmd argv timeout env) = outcome_of env"
  by (simp add: run_cmd_def outcome_of_def Let_def
        split: option.splits exn.splits wait_outcome.splits)

lemma run_cmd_pair: "run_cmd argv timeout env = (fst (run_cmd argv timeout env), outcome_of env)"
  by (simp add: prod_eq_iff run_cmd_outcome)





lemma process_direct_run_raises:
  assumes "snd (process_direct_run cfg env al) = Inl e"
  shows "e = CancelledError"
proof -
  have c: "outcome_of env' = Inl x \<Longrightarrow> x = CancelledError" for env' x
    using run_cmd_raises_only_cancellation(1) [of "[]" None env' x]
    by (simp add: outcome_of_def)
  obtain t1 o1 where r1: "run_cmd (SPECTRONAUT cfg @ [''activate'', SPECTRONAUT_KEY cfg]) None (activate_e env) = (t1, o1)"
    and o1: "o1 = outcome_of (activate_e env)"
    using run_cmd_pair by blast
  obtain t2 o2 where r2: "run_cmd (SPECTRONAUT cfg @ al) None (main_e env) = (t2, o2)"
    and o2: "o2 = outcome_of (main_e env)"
    using run_cmd_pair by blast
  obtain t3 o3 where r3: "run_cmd (SPECTRONAUT cfg @ [''deactivate'']) None (deactivate_e env) = (t3, o3)"
    and o3: "o3 = outcome_of (deactivate_e env)"
    using run_cmd_pair by blast
  from assms show ?thesis
    unfolding process_direct_run_def Let_def r1 r2 r3
    using c [of "activate_e env"] c [of "main_e env"] c [of "deactivate_e env"] o1 o2 o3
    by (auto split: sum.splits if_splits)
qed

subsection \<open>The two shapes of an invocation\<close>















lemma track_subprocess_cleanup_keeps:
  "pd_fs (track_subprocess_cleanup reaped_after r) = pd_fs r"
  "pd_args (track_subprocess_cleanup reaped_after r) = pd_args r"
  "pd_outcome (track_subprocess_cleanup reaped_after r) = pd_outcome r"
  by (simp_all add: track_subprocess_cleanup_def)











subsection \<open>Deactivation\<close>











subsection \<open>Validation failures\<close>





end
